theory Spec2Isabelle
  imports Complex_Main "HOL-Library.Sublist"
begin

section \<open>Exceptions and strings\<close>

text \<open>
  The script \<^verbatim>\<open>find_coco_json.py\<close> raises Python exceptions and never catches one in
  \<^verbatim>\<open>main\<close>. Each exception class the script can raise is a constructor carrying the
  message; \<^verbatim>\<open>sys.exit(1)\<close> is \<open>SystemExit 1\<close>. A function that may raise returns
  \<open>error + 'a\<close>, with \<open>Inl\<close> for the exception.

  A Python \<^verbatim>\<open>str\<close> is a \<open>string\<close>, one \<open>char\<close> per character (code points below 256).
\<close>

datatype error =
    FileNotFoundError string
  | RuntimeError string
  | ValueError string
  | KeyError string
  | ZeroDivisionError string
  | OSError string
  | StopIteration
  | SystemExit nat

text \<open>\<^verbatim>\<open>s.endswith(suf)\<close>.\<close>

definition endswith :: "string \<Rightarrow> string \<Rightarrow> bool" where
  "endswith s suf \<longleftrightarrow> length suf \<le> length s \<and> drop (length s - length suf) s = suf"

text \<open>\<^verbatim>\<open>sep.join(xs)\<close>.\<close>

fun join :: "string \<Rightarrow> string list \<Rightarrow> string" where
  "join sep [] = []"
| "join sep [x] = x"
| "join sep (x # y # ys) = x @ sep @ join sep (y # ys)"

section \<open>Locator: \<^verbatim>\<open>find_coco_json\<close>\<close>

text \<open>
  A folder is the list of the names of its entries, in the order the directory is
  enumerated. \<^verbatim>\<open>folder.glob("*.json")\<close> keeps the entries whose name ends in
  \<^verbatim>\<open>.json\<close>; a path of the folder is identified with its \<^verbatim>\<open>name\<close>.
\<close>

definition glob_json :: "string list \<Rightarrow> string list" where
  "glob_json folder = filter (\<lambda>n. endswith n ''.json'') folder"

definition preferred_name :: "string \<Rightarrow> bool" where
  "preferred_name n \<longleftrightarrow> n \<in> {''annotations.json'', ''coco.json''}"

definition not_found_msg :: "string \<Rightarrow> string" where
  "not_found_msg folder_str = ''No .json file found in '' @ folder_str"

definition ambiguous_msg :: "string list \<Rightarrow> string" where
  "ambiguous_msg names =
     ''Multiple .json files found: '' @ join '', '' names @ ''. '' @
     ''Keep only one or rename the desired file to 'annotations.json'.''"

text \<open>\<open>folder_str\<close> is \<^verbatim>\<open>str(folder)\<close>, which the first message shows.\<close>

definition find_coco_json :: "string \<Rightarrow> string list \<Rightarrow> error + string" where
  "find_coco_json folder_str folder =
     (let jsons = glob_json folder in
      if length jsons = 0 then Inl (FileNotFoundError (not_found_msg folder_str))
      else if length jsons > 1 then
        (let preferred = filter preferred_name jsons in
         if length preferred = 1 then Inr (preferred ! 0)
         else Inl (RuntimeError (ambiguous_msg jsons)))
      else Inr (jsons ! 0))"

section \<open>Python values: strings, dictionaries, cycles\<close>

text \<open>\<^verbatim>\<open>str(n)\<close> for an integer: decimal digits, with a minus sign when negative.\<close>

definition digit_char :: "nat \<Rightarrow> char" where
  "digit_char d = ''0123456789'' ! d"

fun str_nat :: "nat \<Rightarrow> string" where
  "str_nat n = (if n < 10 then [digit_char n] else str_nat (n div 10) @ [digit_char (n mod 10)])"

declare str_nat.simps [simp del]

definition str_int :: "int \<Rightarrow> string" where
  "str_int i = (if i < 0 then CHR ''-'' # str_nat (nat (- i)) else str_nat (nat i))"

text \<open>
  \<^verbatim>\<open>s.strip()\<close> removes leading and trailing whitespace (\<^verbatim>\<open>str.isspace\<close> on the code
  points below 256); \<^verbatim>\<open>s.strip(chars)\<close> removes leading and trailing characters that
  occur in \<^verbatim>\<open>chars\<close>.
\<close>

definition isspace :: "char \<Rightarrow> bool" where
  "isspace c \<longleftrightarrow>
     (let n = (of_char c :: nat)
      in (9 \<le> n \<and> n \<le> 13) \<or> (28 \<le> n \<and> n \<le> 32) \<or> n = 133 \<or> n = 160)"

definition strip_by :: "(char \<Rightarrow> bool) \<Rightarrow> string \<Rightarrow> string" where
  "strip_by P s = rev (dropWhile P (rev (dropWhile P s)))"

definition strip :: "string \<Rightarrow> string" where
  "strip s = strip_by isspace s"

definition strip_chars :: "string \<Rightarrow> string \<Rightarrow> string" where
  "strip_chars chars s = strip_by (\<lambda>c. c \<in> set chars) s"

text \<open>\<^verbatim>\<open>s.split(sep)\<close> for a one-character separator: always at least one piece.\<close>

fun split_sep :: "char \<Rightarrow> string \<Rightarrow> string list" where
  "split_sep c [] = [[]]"
| "split_sep c (x # xs) =
     (if x = c then [] # split_sep c xs
      else (case split_sep c xs of [] \<Rightarrow> [[x]] | w # ws \<Rightarrow> (x # w) # ws))"

text \<open>
  A \<^verbatim>\<open>dict\<close> keeps its keys in insertion order, and \<^verbatim>\<open>main\<close> iterates over one, so a
  dictionary is an association list: storing under a key that is present replaces the
  value in place, storing under a new key appends.
\<close>

type_synonym ('k, 'v) dict = "('k \<times> 'v) list"

fun dict_set :: "'k \<Rightarrow> 'v \<Rightarrow> ('k, 'v) dict \<Rightarrow> ('k, 'v) dict" where
  "dict_set k v [] = [(k, v)]"
| "dict_set k v (p # d) = (if fst p = k then (k, v) # d else p # dict_set k v d)"

definition dict_get :: "('k, 'v) dict \<Rightarrow> 'k \<Rightarrow> 'v option" where
  "dict_get d k = map_of d k"

definition dict_get_default :: "('k, 'v) dict \<Rightarrow> 'k \<Rightarrow> 'v \<Rightarrow> 'v" where
  "dict_get_default d k dflt = (case dict_get d k of None \<Rightarrow> dflt | Some v \<Rightarrow> v)"

definition dict_keys :: "('k, 'v) dict \<Rightarrow> 'k list" where
  "dict_keys d = map fst d"

text \<open>
  \<^verbatim>\<open>d[k].append(a)\<close> on a \<^verbatim>\<open>defaultdict(list)\<close>: reading a missing key first stores the
  empty list under it.
\<close>

definition defaultdict_getitem :: "('k, 'v list) dict \<Rightarrow> 'k \<Rightarrow> 'v list \<times> ('k, 'v list) dict" where
  "defaultdict_getitem d k =
     (case dict_get d k of None \<Rightarrow> ([], dict_set k [] d) | Some xs \<Rightarrow> (xs, d))"

definition defaultdict_append :: "('k, 'v list) dict \<Rightarrow> 'k \<Rightarrow> 'v \<Rightarrow> ('k, 'v list) dict" where
  "defaultdict_append d k a =
     (case defaultdict_getitem d k of (xs, d') \<Rightarrow> dict_set k (xs @ [a]) d')"

text \<open>
  \<^verbatim>\<open>itertools.cycle(xs)\<close>: the elements still to come in this round, and the saved copy
  that starts the next round. \<^verbatim>\<open>next\<close> on a cycle of nothing raises StopIteration.
\<close>

type_synonym 'a cycle = "'a list \<times> 'a list"

definition cycle :: "'a list \<Rightarrow> 'a cycle" where
  "cycle xs = (xs, xs)"

fun next_cycle :: "'a cycle \<Rightarrow> ('a \<times> 'a cycle) option" where
  "next_cycle (x # rest, saved) = Some (x, (rest, saved))"
| "next_cycle ([], y # ys) = Some (y, (ys, y # ys))"
| "next_cycle ([], []) = None"

section \<open>Data model of the annotation file\<close>

text \<open>
  The parsed JSON is read through fixed keys. An entry of a section is a record of the
  keys the script reads: a key read with \<^verbatim>\<open>e["k"]\<close> is a field, a key read with
  \<^verbatim>\<open>e.get("k")\<close> is an optional field. Ids are integers, names are strings, and the
  numbers of a bbox are rationals (the script only passes them on, adds and compares).
  The top-level object is a record of its three sections, each present or absent.
\<close>

record coco_image =
  img_id :: int
  file_name :: string

record coco_annotation =
  ann_id :: "int option"
  image_id :: int
  category_id :: "int option"
  bbox :: "rat list"

record coco_category =
  catg_id :: int
  catg_name :: "string option"

record coco =
  images :: "coco_image list option"
  annotations :: "coco_annotation list option"
  categories :: "coco_category list option"

section \<open>Loader: \<^verbatim>\<open>load_coco\<close>\<close>

text \<open>\<^verbatim>\<open>key in data\<close> for the top-level object.\<close>

definition has_key :: "coco \<Rightarrow> string \<Rightarrow> bool" where
  "has_key data key =
     (if key = ''images'' then images data \<noteq> None
      else if key = ''annotations'' then annotations data \<noteq> None
      else if key = ''categories'' then categories data \<noteq> None
      else False)"

definition missing_msg :: "string \<Rightarrow> string" where
  "missing_msg key = ''COCO file missing '' @ [CHR 0x27] @ key @ [CHR 0x27] @ '' section''"

fun validate_keys :: "coco \<Rightarrow> string list \<Rightarrow> error option" where
  "validate_keys data [] = None"
| "validate_keys data (key # keys) =
     (if \<not> has_key data key then Some (ValueError (missing_msg key))
      else validate_keys data keys)"

text \<open>
  The argument is the outcome of opening the file and \<^verbatim>\<open>json.load\<close>: the exception it
  raised, or the parsed object.
\<close>

definition load_coco :: "error + coco \<Rightarrow> error + coco" where
  "load_coco parsed =
     (case parsed of
        Inl e \<Rightarrow> Inl e
      | Inr data \<Rightarrow>
          (case validate_keys data [''images'', ''annotations'', ''categories''] of
             Some e \<Rightarrow> Inl e
           | None \<Rightarrow> Inr data))"

section \<open>Indexer: \<^verbatim>\<open>build_indices\<close>\<close>

type_synonym indices =
  "(int, coco_image) dict \<times> (int, coco_annotation list) dict \<times> (int, coco_category) dict"

definition build_indices :: "coco \<Rightarrow> error + indices" where
  "build_indices c =
     (case images c of
        None \<Rightarrow> Inl (KeyError ''images'')
      | Some imgs \<Rightarrow>
          (let images_by_id = fold (\<lambda>img d. dict_set (img_id img) img d) imgs []
           in case annotations c of
                None \<Rightarrow> Inl (KeyError ''annotations'')
              | Some anns \<Rightarrow>
                  (let anns_by_image =
                         fold (\<lambda>ann d. defaultdict_append d (image_id ann) ann) anns []
                   in case categories c of
                        None \<Rightarrow> Inl (KeyError ''categories'')
                      | Some cats \<Rightarrow>
                          (let categories_by_id =
                                 fold (\<lambda>cat d. dict_set (catg_id cat) cat d) cats []
                           in Inr (images_by_id, anns_by_image, categories_by_id)))))"

section \<open>Color Assigner: \<^verbatim>\<open>category_color_map\<close>\<close>

text \<open>
  \<open>rc\<close> is what \<^verbatim>\<open>plt.rcParams['axes.prop_cycle'].by_key().get('color', None)\<close> gives:
  nothing, or a list of colors.
\<close>

definition fallback_palette :: "string list" where
  "fallback_palette = map (\<lambda>i. ''C'' @ str_nat i) [0..<10]"

definition palette :: "string list option \<Rightarrow> string list" where
  "palette rc = (case rc of None \<Rightarrow> fallback_palette
                 | Some colors \<Rightarrow> if colors = [] then fallback_palette else colors)"

fun assign_colors ::
  "int list \<Rightarrow> string cycle \<Rightarrow> (int, string) dict \<Rightarrow> error + (int, string) dict" where
  "assign_colors [] cyc mapping = Inr mapping"
| "assign_colors (cid # cids) cyc mapping =
     (case next_cycle cyc of
        None \<Rightarrow> Inl StopIteration
      | Some (c, cyc') \<Rightarrow> assign_colors cids cyc' (dict_set cid c mapping))"

definition category_color_map ::
  "string list option \<Rightarrow> (int, coco_category) dict \<Rightarrow> error + (int, string) dict" where
  "category_color_map rc categories_by_id =
     assign_colors (sort (dict_keys categories_by_id)) (cycle (palette rc)) []"

section \<open>Images and figures\<close>

text \<open>
  A decoded image is its pixel size. A figure holds what the script can put on it:
  axes with the image shown, patches and texts, and a caption. The floating-point numbers
  of the drawing calls (coordinates, sizes, line widths) are rationals: \<^verbatim>\<open>1.5\<close> is
  \<open>3/2\<close>, \<^verbatim>\<open>0.002\<close> is \<open>2/1000\<close>, and rounding is not modelled.
\<close>

record raster =
  im_width :: nat
  im_height :: nat

record rectangle =
  rect_xy :: "rat \<times> rat"
  rect_width :: rat
  rect_height :: rat
  rect_linewidth :: rat
  rect_edgecolor :: string
  rect_facecolor :: string

record fancy_bbox_patch =
  fb_xy :: "rat \<times> rat"
  fb_width :: rat
  fb_height :: rat
  fb_boxstyle :: string
  fb_linewidth :: rat
  fb_facecolor :: string
  fb_alpha :: rat

datatype patch = Rectangle rectangle | FancyBboxPatch fancy_bbox_patch

record text_artist =
  text_x :: rat
  text_y :: rat
  text_s :: string
  text_fontsize :: rat
  text_color :: string
  text_va :: string
  text_ha :: string
  text_fontweight :: string

record axes =
  ax_position :: "rat list"
  ax_images :: "raster list"
  ax_axis_on :: bool
  ax_patches :: "patch list"
  ax_texts :: "text_artist list"

record figure =
  fig_figsize :: "rat \<times> rat"
  fig_dpi :: int
  fig_axes :: "axes list"
  fig_suptitle :: "(string \<times> rat) option"

text \<open>
  The state of \<^verbatim>\<open>matplotlib.pyplot\<close>: the open figures under their numbers, the
  current figure last. A figure object is referred to by its number, an axes object by
  the number of its figure and its position among the figure's axes.
\<close>

type_synonym pyplot = "(nat, figure) dict"

type_synonym ax_ref = "nat \<times> nat"

definition next_fignum :: "pyplot \<Rightarrow> nat" where
  "next_fignum plt = (if plt = [] then 1 else fold max (dict_keys plt) 0 + 1)"

definition new_figure :: "rat \<times> rat \<Rightarrow> int \<Rightarrow> figure" where
  "new_figure figsize dpi =
     \<lparr>fig_figsize = figsize, fig_dpi = dpi, fig_axes = [], fig_suptitle = None\<rparr>"

text \<open>\<^verbatim>\<open>plt.figure(figsize=..., dpi=...)\<close> refuses a negative size.\<close>

definition plt_figure :: "pyplot \<Rightarrow> rat \<times> rat \<Rightarrow> int \<Rightarrow> error + nat \<times> pyplot" where
  "plt_figure plt figsize dpi =
     (if fst figsize < 0 \<or> snd figsize < 0
      then Inl (ValueError ''figure size must be positive finite'')
      else (let num = next_fignum plt in Inr (num, plt @ [(num, new_figure figsize dpi)])))"

text \<open>\<^verbatim>\<open>plt.gcf()\<close>: the current figure; one with the default size is made when none is open.\<close>

definition plt_gcf :: "pyplot \<Rightarrow> nat \<times> pyplot" where
  "plt_gcf plt =
     (if plt = [] then (1, [(1, new_figure (64 / 10, 48 / 10) 100)])
      else (fst (last plt), plt))"

definition update_figure :: "nat \<Rightarrow> (figure \<Rightarrow> figure) \<Rightarrow> pyplot \<Rightarrow> pyplot" where
  "update_figure num g plt = map (\<lambda>(n, f). if n = num then (n, g f) else (n, f)) plt"

definition update_axes :: "ax_ref \<Rightarrow> (axes \<Rightarrow> axes) \<Rightarrow> pyplot \<Rightarrow> pyplot" where
  "update_axes ax g plt =
     update_figure (fst ax)
       (\<lambda>f. if snd ax < length (fig_axes f)
            then f\<lparr>fig_axes := (fig_axes f)[snd ax := g (fig_axes f ! snd ax)]\<rparr>
            else f) plt"

definition new_axes :: "rat list \<Rightarrow> axes" where
  "new_axes position =
     \<lparr>ax_position = position, ax_images = [], ax_axis_on = True,
      ax_patches = [], ax_texts = []\<rparr>"

text \<open>\<^verbatim>\<open>plt.axes(rect)\<close> adds axes to the current figure and returns them.\<close>

definition plt_axes :: "pyplot \<Rightarrow> rat list \<Rightarrow> ax_ref \<times> pyplot" where
  "plt_axes plt position =
     (case plt_gcf plt of
        (num, plt') \<Rightarrow>
          (let i = (case dict_get plt' num of None \<Rightarrow> 0 | Some f \<Rightarrow> length (fig_axes f))
           in ((num, i),
               update_figure num (\<lambda>f. f\<lparr>fig_axes := fig_axes f @ [new_axes position]\<rparr>) plt')))"

definition ax_imshow :: "ax_ref \<Rightarrow> raster \<Rightarrow> pyplot \<Rightarrow> pyplot" where
  "ax_imshow ax im plt = update_axes ax (\<lambda>a. a\<lparr>ax_images := ax_images a @ [im]\<rparr>) plt"

definition ax_axis_off :: "ax_ref \<Rightarrow> pyplot \<Rightarrow> pyplot" where
  "ax_axis_off ax plt = update_axes ax (\<lambda>a. a\<lparr>ax_axis_on := False\<rparr>) plt"

definition ax_add_patch :: "ax_ref \<Rightarrow> patch \<Rightarrow> pyplot \<Rightarrow> pyplot" where
  "ax_add_patch ax p plt = update_axes ax (\<lambda>a. a\<lparr>ax_patches := ax_patches a @ [p]\<rparr>) plt"

definition ax_text :: "ax_ref \<Rightarrow> text_artist \<Rightarrow> pyplot \<Rightarrow> pyplot" where
  "ax_text ax t plt = update_axes ax (\<lambda>a. a\<lparr>ax_texts := ax_texts a @ [t]\<rparr>) plt"

definition fig_suptitle_set :: "nat \<Rightarrow> string \<Rightarrow> rat \<Rightarrow> pyplot \<Rightarrow> pyplot" where
  "fig_suptitle_set num title fontsize plt =
     update_figure num (\<lambda>f. f\<lparr>fig_suptitle := Some (title, fontsize)\<rparr>) plt"

definition plt_close :: "nat \<Rightarrow> pyplot \<Rightarrow> pyplot" where
  "plt_close num plt = filter (\<lambda>(n, f). n \<noteq> num) plt"

section \<open>Renderer: \<^verbatim>\<open>draw_image_with_bboxes\<close>\<close>

text \<open>
  What the script reads from its surroundings: the folder argument and its entries, the
  outcome of reading and parsing a file of the folder, how a path under a directory
  prints, which paths exist, the outcome of decoding an image (the text of the exception
  or the image), the colors of the property cycle, and the outcome of creating the save
  directory and of writing a file.
\<close>

record world =
  folder_exists :: bool
  folder_is_dir :: bool
  listdir :: "string list"
  json_load :: "string \<Rightarrow> error + coco"
  joinpath :: "string \<Rightarrow> string \<Rightarrow> string"
  path_exists :: "string \<Rightarrow> bool"
  image_open :: "string \<Rightarrow> string + raster"
  rc_colors :: "string list option"
  mkdir_error :: "string \<Rightarrow> error option"
  savefig_error :: "string \<Rightarrow> error option"

definition open_failed_msg :: "string \<Rightarrow> string \<Rightarrow> string" where
  "open_failed_msg img_path e =
     ''Failed to open image '' @ [CHR 0x27] @ img_path @ [CHR 0x27] @ '': '' @ e"

definition unpack_msg :: "nat \<Rightarrow> string" where
  "unpack_msg n =
     (if n < 4 then ''not enough values to unpack (expected 4, got '' @ str_nat n @ '')''
      else ''too many values to unpack (expected 4)'')"

text \<open>\<^verbatim>\<open>color_map.get(cat_id, "white")\<close>, where \<^verbatim>\<open>cat_id\<close> may be \<^verbatim>\<open>None\<close>.\<close>

definition box_color :: "(int, string) dict \<Rightarrow> int option \<Rightarrow> string" where
  "box_color color_map cat_id =
     (case cat_id of None \<Rightarrow> ''white''
      | Some c \<Rightarrow> dict_get_default color_map c ''white'')"

definition str_opt_int :: "int option \<Rightarrow> string" where
  "str_opt_int v = (case v of None \<Rightarrow> ''None'' | Some i \<Rightarrow> str_int i)"

text \<open>\<^verbatim>\<open>categories_by_id.get(cat_id, {}).get("name", str(cat_id))\<close>.\<close>

definition category_name :: "(int, coco_category) dict \<Rightarrow> int option \<Rightarrow> string" where
  "category_name categories_by_id cat_id =
     (case (case cat_id of None \<Rightarrow> None | Some c \<Rightarrow> dict_get categories_by_id c) of
        None \<Rightarrow> str_opt_int cat_id
      | Some cat \<Rightarrow> (case catg_name cat of None \<Rightarrow> str_opt_int cat_id | Some n \<Rightarrow> n))"

text \<open>\<^verbatim>\<open>f"{cat_name}#{ann.get('id', '')}".strip("#")\<close>.\<close>

definition make_label :: "(int, coco_category) dict \<Rightarrow> coco_annotation \<Rightarrow> string" where
  "make_label categories_by_id ann =
     strip_chars ''#''
       (category_name categories_by_id (category_id ann) @ ''#'' @
        (case ann_id ann of None \<Rightarrow> [] | Some i \<Rightarrow> str_int i))"

definition linewidth_of :: "raster \<Rightarrow> rat" where
  "linewidth_of im = max (3 / 2) (of_nat (min (im_width im) (im_height im)) * (2 / 1000))"

definition make_rect :: "raster \<Rightarrow> string \<Rightarrow> rat \<Rightarrow> rat \<Rightarrow> rat \<Rightarrow> rat \<Rightarrow> rectangle" where
  "make_rect im color x y w h =
     \<lparr>rect_xy = (x, y), rect_width = w, rect_height = h,
      rect_linewidth = linewidth_of im,
      rect_edgecolor = color, rect_facecolor = ''none''\<rparr>"

definition make_txt_bg :: "string \<Rightarrow> string \<Rightarrow> rat \<Rightarrow> rat \<Rightarrow> fancy_bbox_patch" where
  "make_txt_bg color label x y =
     \<lparr>fb_xy = (x, max 0 (y - 18)),
      fb_width = max 40 (of_nat (length label * 7)), fb_height = 18,
      fb_boxstyle = ''round,pad=0.2,rounding_size=2'',
      fb_linewidth = 0, fb_facecolor = color, fb_alpha = 8 / 10\<rparr>"

definition make_text :: "string \<Rightarrow> rat \<Rightarrow> rat \<Rightarrow> text_artist" where
  "make_text label x y =
     \<lparr>text_x = x + 4, text_y = max 12 (y - 4), text_s = label,
      text_fontsize = 9, text_color = ''black'', text_va = ''center'',
      text_ha = ''left'', text_fontweight = ''bold''\<rparr>"

text \<open>One round of the loop over \<^verbatim>\<open>anns\<close>; unpacking a bbox that has not four entries raises.\<close>

definition draw_ann ::
  "ax_ref \<Rightarrow> raster \<Rightarrow> (int, coco_category) dict \<Rightarrow> (int, string) dict \<Rightarrow>
   coco_annotation \<Rightarrow> pyplot \<Rightarrow> error + pyplot" where
  "draw_ann ax im categories_by_id color_map ann plt =
     (case bbox ann of
        [x, y, w, h] \<Rightarrow>
          (let cat_id = category_id ann;
               color = box_color color_map cat_id;
               plt1 = ax_add_patch ax (Rectangle (make_rect im color x y w h)) plt;
               label = make_label categories_by_id ann;
               plt2 = ax_add_patch ax (FancyBboxPatch (make_txt_bg color label x y)) plt1;
               plt3 = ax_text ax (make_text label x y) plt2
           in Inr plt3)
      | b \<Rightarrow> Inl (ValueError (unpack_msg (length b))))"

fun draw_anns ::
  "ax_ref \<Rightarrow> raster \<Rightarrow> (int, coco_category) dict \<Rightarrow> (int, string) dict \<Rightarrow>
   coco_annotation list \<Rightarrow> pyplot \<Rightarrow> error + pyplot" where
  "draw_anns ax im categories_by_id color_map [] plt = Inr plt"
| "draw_anns ax im categories_by_id color_map (ann # anns) plt =
     (case draw_ann ax im categories_by_id color_map ann plt of
        Inl e \<Rightarrow> Inl e
      | Inr plt' \<Rightarrow> draw_anns ax im categories_by_id color_map anns plt')"

text \<open>The figure is returned as its number, with the state of pyplot after the call.\<close>

definition draw_image_with_bboxes ::
  "world \<Rightarrow> pyplot \<Rightarrow> string \<Rightarrow> coco_annotation list \<Rightarrow> (int, coco_category) dict \<Rightarrow>
   (int, string) dict \<Rightarrow> int \<Rightarrow> error + nat \<times> pyplot" where
  "draw_image_with_bboxes wld plt img_path anns categories_by_id color_map dpi =
     (case image_open wld img_path of
        Inl e \<Rightarrow> Inl (RuntimeError (open_failed_msg img_path e))
      | Inr im \<Rightarrow>
          if dpi = 0 then Inl (ZeroDivisionError ''division by zero'')
          else
            (case plt_figure plt (of_nat (im_width im) / of_int dpi,
                                  of_nat (im_height im) / of_int dpi) dpi of
               Inl e \<Rightarrow> Inl e
             | Inr (fig, plt1) \<Rightarrow>
                 (case plt_axes plt1 [0, 0, 1, 1] of
                    (ax, plt2) \<Rightarrow>
                      (let plt3 = ax_imshow ax im plt2;
                           plt4 = ax_axis_off ax plt3
                       in case draw_anns ax im categories_by_id color_map anns plt4 of
                            Inl e \<Rightarrow> Inl e
                          | Inr plt5 \<Rightarrow> Inr (fig, plt5)))))"

section \<open>Orchestrator: \<^verbatim>\<open>main\<close>\<close>

record args =
  arg_folder :: string
  arg_show :: bool
  arg_save :: "string option"
  arg_subset :: "string option"
  arg_dpi :: int

text \<open>
  \<^verbatim>\<open>allowed_names\<close>: \<^verbatim>\<open>None\<close> unless \<^verbatim>\<open>args.subset\<close> is a non-empty string, and then the
  set of the stripped, non-empty pieces between its commas.
\<close>

definition parse_subset :: "string option \<Rightarrow> string set option" where
  "parse_subset sub =
     (case sub of
        None \<Rightarrow> None
      | Some s \<Rightarrow>
          if s = [] then None
          else Some (set (map strip (filter (\<lambda>name. strip name \<noteq> []) (split_sep CHR '','' s)))))"

text \<open>\<^verbatim>\<open>allowed_names and file_name not in allowed_names\<close>: the image is skipped.\<close>

definition filtered_out :: "string set option \<Rightarrow> string \<Rightarrow> bool" where
  "filtered_out allowed_names fname =
     (case allowed_names of
        None \<Rightarrow> False
      | Some names \<Rightarrow> names \<noteq> {} \<and> fname \<notin> names)"

text \<open>\<^verbatim>\<open>Path(file_name).stem\<close>: the last component of the path without its last suffix.\<close>

definition path_name :: "string \<Rightarrow> string" where
  "path_name p =
     (case filter (\<lambda>c. c \<noteq> [] \<and> c \<noteq> ''.'') (split_sep CHR ''/'' p) of
        [] \<Rightarrow> []
      | cs \<Rightarrow> last cs)"

fun rfind :: "char \<Rightarrow> string \<Rightarrow> nat option" where
  "rfind c [] = None"
| "rfind c (x # xs) =
     (case rfind c xs of
        Some i \<Rightarrow> Some (Suc i)
      | None \<Rightarrow> if x = c then Some 0 else None)"

definition stem :: "string \<Rightarrow> string" where
  "stem p =
     (let name = path_name p
      in case rfind CHR ''.'' name of
           None \<Rightarrow> name
         | Some i \<Rightarrow> if 0 < i \<and> i < length name - 1 then take i name else name)"

definition title_of :: "string \<Rightarrow> nat \<Rightarrow> string" where
  "title_of fname n =
     fname @ ''  |  '' @ str_nat n @ '' bbox'' @ (if n \<noteq> 1 then ''es'' else [])"

text \<open>
  The state of the loop over the images: pyplot, the counter and the list of the
  script, the lines printed, the files written and the figures shown; \<open>drawn\<close> records
  every figure the loop finished, under the file name of its image.
\<close>

record run_state =
  rs_plt :: pyplot
  processed :: nat
  missing_images :: "string list"
  stdout :: "string list"
  stderr :: "string list"
  saved :: "(string \<times> figure option) list"
  displayed :: "figure list"
  drawn :: "(string \<times> figure option) list"

definition initial_state :: run_state where
  "initial_state =
     \<lparr>rs_plt = [], processed = 0, missing_images = [], stdout = [], stderr = [],
      saved = [], displayed = [], drawn = []\<rparr>"

text \<open>
  The body of the loop once the image file is known to exist. \<^verbatim>\<open>plt.show()\<close> blocks
  until the windows are dismissed, which closes every open figure.
\<close>

definition process_image ::
  "world \<Rightarrow> args \<Rightarrow> (int, coco_annotation list) dict \<Rightarrow> (int, coco_category) dict \<Rightarrow>
   (int, string) dict \<Rightarrow> int \<Rightarrow> string \<Rightarrow> run_state \<Rightarrow> error + run_state" where
  "process_image wld a anns_by_image categories_by_id color_map iid fname st =
     (let img_path = joinpath wld (arg_folder a) fname;
          anns = dict_get_default anns_by_image iid []
      in case draw_image_with_bboxes wld (rs_plt st) img_path anns categories_by_id
                color_map (arg_dpi a) of
           Inl e \<Rightarrow> Inl e
         | Inr (fig, plt1) \<Rightarrow>
             (let title = title_of fname (length anns);
                  plt2 = fig_suptitle_set fig title 10 plt1;
                  st1 = st\<lparr>rs_plt := plt2\<rparr>
              in case (case arg_save a of
                         None \<Rightarrow> Inr st1
                       | Some dir \<Rightarrow>
                           (let out_path = joinpath wld dir (stem fname @ ''__overlay.png'')
                            in case savefig_error wld out_path of
                                 Some e \<Rightarrow> Inl e
                               | None \<Rightarrow>
                                   Inr (st1\<lparr>saved := saved st1 @ [(out_path, dict_get plt2 fig)],
                                            stdout := stdout st1 @ [''Saved: '' @ out_path]\<rparr>))) of
                   Inl e \<Rightarrow> Inl e
                 | Inr st2 \<Rightarrow>
                     (let st3 = (if arg_show a
                                 then st2\<lparr>displayed := displayed st2 @ map snd (rs_plt st2),
                                          rs_plt := []\<rparr>
                                 else st2\<lparr>rs_plt := plt_close fig (rs_plt st2)\<rparr>)
                      in Inr (st3\<lparr>processed := processed st3 + 1,
                                   drawn := drawn st3 @ [(fname, dict_get plt2 fig)]\<rparr>))))"

fun image_loop ::
  "world \<Rightarrow> args \<Rightarrow> (int, coco_annotation list) dict \<Rightarrow> (int, coco_category) dict \<Rightarrow>
   (int, string) dict \<Rightarrow> string set option \<Rightarrow> (int \<times> coco_image) list \<Rightarrow> run_state \<Rightarrow>
   error + run_state" where
  "image_loop wld a anns_by_image categories_by_id color_map allowed_names [] st = Inr st"
| "image_loop wld a anns_by_image categories_by_id color_map allowed_names (item # items) st =
     (let fname = file_name (snd item)
      in if filtered_out allowed_names fname
         then image_loop wld a anns_by_image categories_by_id color_map allowed_names items st
         else if \<not> path_exists wld (joinpath wld (arg_folder a) fname)
         then image_loop wld a anns_by_image categories_by_id color_map allowed_names items
                (st\<lparr>missing_images := missing_images st @ [fname]\<rparr>)
         else (case process_image wld a anns_by_image categories_by_id color_map
                      (fst item) fname st of
                 Inl e \<Rightarrow> Inl e
               | Inr st' \<Rightarrow>
                   image_loop wld a anns_by_image categories_by_id color_map allowed_names
                     items st'))"

definition report :: "run_state \<Rightarrow> run_state" where
  "report st =
     (let st1 = (if missing_images st \<noteq> []
                 then st\<lparr>stderr := stderr st @
                        [''Warning: the following image files listed in COCO were not found in the folder:''] @
                        map (\<lambda>nm. ''  - '' @ nm) (missing_images st)\<rparr>
                 else st)
      in if processed st1 = 0
         then st1\<lparr>stderr := stderr st1 @
                [''No images were processed. Check your --subset filter or that image files exist.'']\<rparr>
         else st1)"

definition main :: "world \<Rightarrow> args \<Rightarrow> error + run_state" where
  "main wld a =
     (if \<not> folder_exists wld \<or> \<not> folder_is_dir wld then Inl (SystemExit 1)
      else case find_coco_json (arg_folder a) (listdir wld) of
        Inl e \<Rightarrow> Inl e
      | Inr coco_path \<Rightarrow>
      (case load_coco (json_load wld coco_path) of
        Inl e \<Rightarrow> Inl e
      | Inr c \<Rightarrow>
      (case build_indices c of
        Inl e \<Rightarrow> Inl e
      | Inr (images_by_id, anns_by_image, categories_by_id) \<Rightarrow>
      (case category_color_map (rc_colors wld) categories_by_id of
        Inl e \<Rightarrow> Inl e
      | Inr color_map \<Rightarrow>
      (let allowed_names = parse_subset (arg_subset a)
       in case (case arg_save a of None \<Rightarrow> None | Some dir \<Rightarrow> mkdir_error wld dir) of
            Some e \<Rightarrow> Inl e
          | None \<Rightarrow>
              (case image_loop wld a anns_by_image categories_by_id color_map allowed_names
                      images_by_id initial_state of
                 Inl e \<Rightarrow> Inl e
               | Inr st \<Rightarrow> Inr (report st)))))))"

text \<open>
  The exit status of the process: 0 when \<^verbatim>\<open>main\<close> returns, the argument of
  \<^verbatim>\<open>sys.exit\<close>, and 1 when an exception leaves \<^verbatim>\<open>main\<close> uncaught.
\<close>

definition exit_code :: "error + run_state \<Rightarrow> nat" where
  "exit_code r = (case r of Inr st \<Rightarrow> 0 | Inl (SystemExit n) \<Rightarrow> n | Inl e \<Rightarrow> 1)"

section \<open>The figure of one rendering, apart from pyplot\<close>

text \<open>
  For the proofs, the drawing of the Renderer is written a second time as a function of
  the axes alone: \<open>paint_ann\<close> is what one round of the loop adds to the axes, and
  \<open>render\<close> is the whole figure. The properties below show that
  \<open>draw_image_with_bboxes\<close>, which works through the state of pyplot, leaves exactly
  this figure under a fresh number.
\<close>

definition paint_ann ::
  "raster \<Rightarrow> (int, coco_category) dict \<Rightarrow> (int, string) dict \<Rightarrow> coco_annotation \<Rightarrow>
   axes \<Rightarrow> error + axes" where
  "paint_ann im categories_by_id color_map ann a =
     (case bbox ann of
        [x, y, w, h] \<Rightarrow>
          Inr (a\<lparr>ax_patches := ax_patches a @
                    [Rectangle (make_rect im (box_color color_map (category_id ann)) x y w h),
                     FancyBboxPatch (make_txt_bg (box_color color_map (category_id ann))
                                       (make_label categories_by_id ann) x y)],
                  ax_texts := ax_texts a @ [make_text (make_label categories_by_id ann) x y]\<rparr>)
      | b \<Rightarrow> Inl (ValueError (unpack_msg (length b))))"

fun paint_anns ::
  "raster \<Rightarrow> (int, coco_category) dict \<Rightarrow> (int, string) dict \<Rightarrow> coco_annotation list \<Rightarrow>
   axes \<Rightarrow> error + axes" where
  "paint_anns im categories_by_id color_map [] a = Inr a"
| "paint_anns im categories_by_id color_map (ann # anns) a =
     (case paint_ann im categories_by_id color_map ann a of
        Inl e \<Rightarrow> Inl e
      | Inr a' \<Rightarrow> paint_anns im categories_by_id color_map anns a')"

definition base_axes :: "raster \<Rightarrow> axes" where
  "base_axes im =
     \<lparr>ax_position = [0, 0, 1, 1], ax_images = [im], ax_axis_on = False,
      ax_patches = [], ax_texts = []\<rparr>"

definition render ::
  "world \<Rightarrow> string \<Rightarrow> coco_annotation list \<Rightarrow> (int, coco_category) dict \<Rightarrow>
   (int, string) dict \<Rightarrow> int \<Rightarrow> error + figure" where
  "render wld img_path anns categories_by_id color_map dpi =
     (case image_open wld img_path of
        Inl e \<Rightarrow> Inl (RuntimeError (open_failed_msg img_path e))
      | Inr im \<Rightarrow>
          if dpi = 0 then Inl (ZeroDivisionError ''division by zero'')
          else if of_nat (im_width im) / of_int dpi < (0::rat)
                  \<or> of_nat (im_height im) / of_int dpi < (0::rat)
          then Inl (ValueError ''figure size must be positive finite'')
          else (case paint_anns im categories_by_id color_map anns (base_axes im) of
                  Inl e \<Rightarrow> Inl e
                | Inr a \<Rightarrow>
                    Inr \<lparr>fig_figsize = (of_nat (im_width im) / of_int dpi,
                                         of_nat (im_height im) / of_int dpi),
                         fig_dpi = dpi, fig_axes = [a], fig_suptitle = None\<rparr>))"

text \<open>What is looked at in a figure: the patches and texts of its axes.\<close>

definition figure_patches :: "figure \<Rightarrow> patch list" where
  "figure_patches f = concat (map ax_patches (fig_axes f))"

definition figure_texts :: "figure \<Rightarrow> text_artist list" where
  "figure_texts f = concat (map ax_texts (fig_axes f))"

fun rectangles :: "patch list \<Rightarrow> rectangle list" where
  "rectangles [] = []"
| "rectangles (Rectangle r # ps) = r # rectangles ps"
| "rectangles (FancyBboxPatch b # ps) = rectangles ps"

fun label_tags :: "patch list \<Rightarrow> fancy_bbox_patch list" where
  "label_tags [] = []"
| "label_tags (Rectangle r # ps) = label_tags ps"
| "label_tags (FancyBboxPatch b # ps) = b # label_tags ps"

text \<open>The figure a call of the Renderer returns, looked up in the state it leaves.\<close>

definition returned_figure :: "error + nat \<times> pyplot \<Rightarrow> error + figure option" where
  "returned_figure r = (case r of Inl e \<Rightarrow> Inl e | Inr (fig, plt) \<Rightarrow> Inr (dict_get plt fig))"

section \<open>Properties of the Locator\<close>

lemma sublist_join:
  "n \<in> set names \<Longrightarrow> sublist n (join sep names)"
proof (induction sep names rule: join.induct)
  case (1 sep)
  then show ?case by simp
next
  case (2 sep x)
  then show ?case by simp
next
  case (3 sep x y ys)
  show ?case
  proof (cases "n = x")
    case True
    then show ?thesis by (simp add: sublist_append)
  next
    case False
    with 3 have "sublist n (join sep (y # ys))" by simp
    then show ?thesis by (simp add: sublist_append)
  qed
qed

lemma sublist_ambiguous_msg:
  assumes "n \<in> set names"
  shows "sublist n (ambiguous_msg names)"
proof -
  have "sublist n (join '', '' names)"
    using assms by (rule sublist_join)
  moreover have "sublist (join '', '' names) (ambiguous_msg names)"
    unfolding ambiguous_msg_def by (rule sublist_appendI)
  ultimately show ?thesis
    by (rule sublist_order.order_trans)
qed

lemma filter_singleton_unique:
  assumes "distinct xs" "p \<in> set xs" "P p" "\<forall>q\<in>set xs. P q \<longrightarrow> q = p"
  shows "filter P xs = [p]"
  using assms
proof (induction xs)
  case Nil
  then show ?case by simp
next
  case (Cons x xs)
  from Cons.prems(1) have dx: "x \<notin> set xs" and dxs: "distinct xs" by simp_all
  from Cons.prems(4) have px: "P x \<longrightarrow> x = p"
    and pxs: "\<forall>q\<in>set xs. P q \<longrightarrow> q = p" by simp_all
  show ?case
  proof (cases "x = p")
    case True
    with dx pxs have "\<forall>q\<in>set xs. \<not> P q" by blast
    then have "filter P xs = []" by (simp add: filter_empty_conv)
    with True Cons.prems(3) show ?thesis by simp
  next
    case False
    with px have "\<not> P x" by blast
    moreover from False Cons.prems(2) have "p \<in> set xs" by simp
    with dxs have "filter P xs = [p]"
      using Cons.prems(3) pxs by (rule Cons.IH)
    ultimately show ?thesis by simp
  qed
qed

lemma filter_singleton_ex1:
  assumes "filter P xs = [p]"
  shows "p \<in> set xs \<and> P p \<and> (\<forall>q\<in>set xs. P q \<longrightarrow> q = p)"
proof -
  have "set (filter P xs) = {p}" using assms by simp
  then show ?thesis by auto
qed

lemma find_coco_json_none:
  "glob_json folder = [] \<Longrightarrow> find_coco_json fs folder = Inl (FileNotFoundError (not_found_msg fs))"
  by (simp add: find_coco_json_def)

lemma find_coco_json_one:
  "glob_json folder = [p] \<Longrightarrow> find_coco_json fs folder = Inr p"
  by (simp add: find_coco_json_def)

lemma find_coco_json_preferred:
  assumes "1 < length (glob_json folder)" "filter preferred_name (glob_json folder) = [p]"
  shows "find_coco_json fs folder = Inr p"
proof -
  from assms(1) have "length (glob_json folder) \<noteq> 0" by auto
  with assms show ?thesis
    unfolding find_coco_json_def Let_def by simp
qed

lemma find_coco_json_ambiguous:
  assumes "1 < length (glob_json folder)" "length (filter preferred_name (glob_json folder)) \<noteq> 1"
  shows "find_coco_json fs folder = Inl (RuntimeError (ambiguous_msg (glob_json folder)))"
proof -
  from assms(1) have "length (glob_json folder) \<noteq> 0" by auto
  with assms show ?thesis
    unfolding find_coco_json_def Let_def by simp
qed

lemma endswith_iff_suffix: "endswith n suf \<longleftrightarrow> suffix suf n"
proof
  assume "endswith n suf"
  then have "drop (length n - length suf) n = suf" by (simp add: endswith_def)
  then have "n = take (length n - length suf) n @ suf" by (metis append_take_drop_id)
  then show "suffix suf n" by (metis suffixI)
next
  assume "suffix suf n"
  then obtain zs where "n = zs @ suf" by (auto simp: suffix_def)
  then show "endswith n suf" by (simp add: endswith_def)
qed

lemma glob_json_suffix: "glob_json folder = filter (suffix ''.json'') folder"
  by (simp add: glob_json_def endswith_iff_suffix)

lemma join_concat:
  "names \<noteq> [] \<Longrightarrow> join sep names @ sep = concat (map (\<lambda>n. n @ sep) names)"
  by (induction sep names rule: join.induct) simp_all

lemma preferred_is_json: "preferred_name n \<Longrightarrow> suffix ''.json'' n"
  by (auto simp: preferred_name_def suffix_def)

lemma preferred_in_glob:
  "preferred_name n \<Longrightarrow> n \<in> set (glob_json folder) \<longleftrightarrow> n \<in> set folder"
  by (auto simp: glob_json_suffix preferred_is_json)

text \<open>
  Claim C4. For a folder (its entries have distinct names), the candidates being the
  entries whose name ends in \<^verbatim>\<open>.json\<close>: with no candidate the Locator raises
  FileNotFoundError (NotFound); with exactly one candidate it returns it, whatever its
  name; with several candidates it returns \<^verbatim>\<open>annotations.json\<close> when that entry is in the
  folder and \<^verbatim>\<open>coco.json\<close> is not, \<^verbatim>\<open>coco.json\<close> when that entry is in the folder and
  \<^verbatim>\<open>annotations.json\<close> is not, and otherwise (both or neither) raises RuntimeError
  (AmbiguousInput) with the message that lists all the candidates, in the folder's
  order, separated by a comma and a space.
\<close>

theorem find_coco_json_spec:
  assumes "distinct folder"
  shows "((\<forall>n\<in>set folder. \<not> suffix ''.json'' n) \<longrightarrow>
            find_coco_json fs folder = Inl (FileNotFoundError (''No .json file found in '' @ fs)))
       \<and> (\<forall>p. filter (suffix ''.json'') folder = [p] \<longrightarrow> find_coco_json fs folder = Inr p)
       \<and> (1 < length (filter (suffix ''.json'') folder)
            \<and> ''annotations.json'' \<in> set folder \<and> ''coco.json'' \<notin> set folder
            \<longrightarrow> find_coco_json fs folder = Inr ''annotations.json'')
       \<and> (1 < length (filter (suffix ''.json'') folder)
            \<and> ''coco.json'' \<in> set folder \<and> ''annotations.json'' \<notin> set folder
            \<longrightarrow> find_coco_json fs folder = Inr ''coco.json'')
       \<and> (1 < length (filter (suffix ''.json'') folder)
            \<and> (''annotations.json'' \<in> set folder \<longleftrightarrow> ''coco.json'' \<in> set folder)
            \<longrightarrow> (\<exists>listing.
                   find_coco_json fs folder =
                     Inl (RuntimeError (''Multiple .json files found: '' @ listing @
                            ''. Keep only one or rename the desired file to 'annotations.json'.''))
                 \<and> listing @ '', '' =
                     concat (map (\<lambda>n. n @ '', '') (filter (suffix ''.json'') folder))))"
proof -
  let ?c = "filter (suffix ''.json'') folder"
  have g: "glob_json folder = ?c" by (rule glob_json_suffix)
  have d: "distinct (glob_json folder)"
    using assms by (simp add: glob_json_def)
  have pa: "preferred_name ''annotations.json''" and pc: "preferred_name ''coco.json''"
    by (simp_all add: preferred_name_def)
  have c1: "find_coco_json fs folder = Inl (FileNotFoundError (''No .json file found in '' @ fs))"
    if "\<forall>n\<in>set folder. \<not> suffix ''.json'' n"
  proof -
    from that have "glob_json folder = []" by (simp add: g filter_empty_conv)
    then show ?thesis
      using find_coco_json_none [of folder fs] by (simp add: not_found_msg_def)
  qed
  have c2: "find_coco_json fs folder = Inr p" if "?c = [p]" for p
    using that g find_coco_json_one [of folder p fs] by simp
  have only: "find_coco_json fs folder = Inr p"
    if m: "1 < length ?c" and i: "p \<in> set folder" and pp: "preferred_name p"
      and o: "\<forall>q. preferred_name q \<and> q \<in> set folder \<longrightarrow> q = p" for p
  proof -
    from i pp have ig: "p \<in> set (glob_json folder)" by (simp add: preferred_in_glob)
    have al: "\<forall>q\<in>set (glob_json folder). preferred_name q \<longrightarrow> q = p"
    proof (intro ballI impI)
      fix q assume "q \<in> set (glob_json folder)" and pq: "preferred_name q"
      then have "q \<in> set folder" by (simp add: glob_json_def)
      with o pq show "q = p" by blast
    qed
    from d ig pp al have f: "filter preferred_name (glob_json folder) = [p]"
      by (rule filter_singleton_unique)
    from m have "1 < length (glob_json folder)" by (simp add: g)
    then show ?thesis using f by (rule find_coco_json_preferred)
  qed
  have c3: "find_coco_json fs folder = Inr ''annotations.json''"
    if "1 < length ?c" "''annotations.json'' \<in> set folder" "''coco.json'' \<notin> set folder"
  proof -
    have "\<forall>q. preferred_name q \<and> q \<in> set folder \<longrightarrow> q = ''annotations.json''"
    proof (intro allI impI)
      fix q assume a: "preferred_name q \<and> q \<in> set folder"
      then have "q = ''annotations.json'' \<or> q = ''coco.json''"
        by (simp add: preferred_name_def)
      with a that(3) show "q = ''annotations.json''" by blast
    qed
    from only [OF that(1) that(2) pa this] show ?thesis .
  qed
  have c4: "find_coco_json fs folder = Inr ''coco.json''"
    if "1 < length ?c" "''coco.json'' \<in> set folder" "''annotations.json'' \<notin> set folder"
  proof -
    have "\<forall>q. preferred_name q \<and> q \<in> set folder \<longrightarrow> q = ''coco.json''"
    proof (intro allI impI)
      fix q assume a: "preferred_name q \<and> q \<in> set folder"
      then have "q = ''annotations.json'' \<or> q = ''coco.json''"
        by (simp add: preferred_name_def)
      with a that(3) show "q = ''coco.json''" by blast
    qed
    from only [OF that(1) that(2) pc this] show ?thesis .
  qed
  have c5: "\<exists>listing.
                   find_coco_json fs folder =
                     Inl (RuntimeError (''Multiple .json files found: '' @ listing @
                            ''. Keep only one or rename the desired file to 'annotations.json'.''))
                 \<and> listing @ '', '' = concat (map (\<lambda>n. n @ '', '') ?c)"
    if m: "1 < length ?c"
      and b: "''annotations.json'' \<in> set folder \<longleftrightarrow> ''coco.json'' \<in> set folder"
  proof -
    have "length (filter preferred_name (glob_json folder)) \<noteq> 1"
    proof
      assume "length (filter preferred_name (glob_json folder)) = 1"
      then obtain p where f: "filter preferred_name (glob_json folder) = [p]"
        by (cases "filter preferred_name (glob_json folder)") simp_all
      from filter_singleton_ex1 [OF f]
      have p1: "p \<in> set (glob_json folder)" and p2: "preferred_name p"
        and p3: "\<forall>q\<in>set (glob_json folder). preferred_name q \<longrightarrow> q = p"
        by simp_all
      from p1 p2 have "p \<in> set folder" by (simp add: preferred_in_glob)
      moreover from p2 have "p = ''annotations.json'' \<or> p = ''coco.json''"
        by (simp add: preferred_name_def)
      ultimately have "''annotations.json'' \<in> set folder" and "''coco.json'' \<in> set folder"
        using b by blast+
      with pa pc have "''annotations.json'' \<in> set (glob_json folder)"
        and "''coco.json'' \<in> set (glob_json folder)"
        by (simp_all add: preferred_in_glob)
      with p3 pa pc have "''annotations.json'' = p" and "''coco.json'' = p" by blast+
      moreover have "''annotations.json'' \<noteq> ''coco.json''" by simp
      ultimately show False by blast
    qed
    moreover from m have m': "1 < length (glob_json folder)" by (simp add: g)
    ultimately have e: "find_coco_json fs folder
        = Inl (RuntimeError (ambiguous_msg (glob_json folder)))"
      by (rule find_coco_json_ambiguous [rotated])
    from m have "?c \<noteq> []" by auto
    then have j: "join '', '' ?c @ '', '' = concat (map (\<lambda>n. n @ '', '') ?c)"
      by (rule join_concat)
    have "find_coco_json fs folder =
                     Inl (RuntimeError (''Multiple .json files found: '' @ join '', '' ?c @
                            ''. Keep only one or rename the desired file to 'annotations.json'.''))"
      using e by (simp add: ambiguous_msg_def g)
    with j show ?thesis by blast
  qed
  from c1 c2 c3 c4 c5 show ?thesis by blast
qed

theorem find_coco_json_spec_witness:
  "find_coco_json ''data'' [''a.png'', ''notes.txt'']
       = Inl (FileNotFoundError ''No .json file found in data'')
   \<and> find_coco_json ''data'' [''x.json'', ''a.png''] = Inr ''x.json''
   \<and> find_coco_json ''data'' [''foo.json'', ''annotations.json'', ''img.png'']
       = Inr ''annotations.json''
   \<and> find_coco_json ''data'' [''coco.json'', ''b.json'', ''img.png''] = Inr ''coco.json''
   \<and> find_coco_json ''data'' [''a.json'', ''img.png'', ''b.json'']
       = Inl (RuntimeError (''Multiple .json files found: a.json, b.json'' @
              ''. Keep only one or rename the desired file to 'annotations.json'.''))
   \<and> find_coco_json ''data'' [''annotations.json'', ''coco.json'']
       = Inl (RuntimeError (''Multiple .json files found: annotations.json, coco.json'' @
              ''. Keep only one or rename the desired file to 'annotations.json'.''))"
proof -
  have s: "suffix ''.json'' ''x.json''" "suffix ''.json'' ''foo.json''"
    "suffix ''.json'' ''annotations.json''" "suffix ''.json'' ''coco.json''"
    "suffix ''.json'' ''a.json''" "suffix ''.json'' ''b.json''"
    "\<not> suffix ''.json'' ''a.png''" "\<not> suffix ''.json'' ''img.png''"
    "\<not> suffix ''.json'' ''notes.txt''"
    by (simp_all add: suffix_to_prefix)
  have r1: "find_coco_json ''data'' [''a.png'', ''notes.txt'']
       = Inl (FileNotFoundError ''No .json file found in data'')"
    using find_coco_json_spec [of "[''a.png'', ''notes.txt'']" "''data''"] s by simp
  have r2: "find_coco_json ''data'' [''x.json'', ''a.png''] = Inr ''x.json''"
    using find_coco_json_spec [of "[''x.json'', ''a.png'']" "''data''"] s by simp
  have r3: "find_coco_json ''data'' [''foo.json'', ''annotations.json'', ''img.png'']
       = Inr ''annotations.json''"
    using find_coco_json_spec [of "[''foo.json'', ''annotations.json'', ''img.png'']" "''data''"] s
    by simp
  have r4: "find_coco_json ''data'' [''coco.json'', ''b.json'', ''img.png''] = Inr ''coco.json''"
    using find_coco_json_spec [of "[''coco.json'', ''b.json'', ''img.png'']" "''data''"] s
    by simp
  have "\<exists>listing. find_coco_json ''data'' [''a.json'', ''img.png'', ''b.json'']
       = Inl (RuntimeError (''Multiple .json files found: '' @ listing @
              ''. Keep only one or rename the desired file to 'annotations.json'.''))
       \<and> listing @ '', '' = ''a.json, b.json, ''"
    using find_coco_json_spec [of "[''a.json'', ''img.png'', ''b.json'']" "''data''"] s
    by simp
  then have r5: "find_coco_json ''data'' [''a.json'', ''img.png'', ''b.json'']
       = Inl (RuntimeError (''Multiple .json files found: a.json, b.json'' @
              ''. Keep only one or rename the desired file to 'annotations.json'.''))"
    by auto
  have "\<exists>listing. find_coco_json ''data'' [''annotations.json'', ''coco.json'']
       = Inl (RuntimeError (''Multiple .json files found: '' @ listing @
              ''. Keep only one or rename the desired file to 'annotations.json'.''))
       \<and> listing @ '', '' = ''annotations.json, coco.json, ''"
    using find_coco_json_spec [of "[''annotations.json'', ''coco.json'']" "''data''"] s
    by simp
  then have r6: "find_coco_json ''data'' [''annotations.json'', ''coco.json'']
       = Inl (RuntimeError (''Multiple .json files found: annotations.json, coco.json'' @
              ''. Keep only one or rename the desired file to 'annotations.json'.''))"
    by auto
  from r1 r2 r3 r4 r5 r6 show ?thesis by blast
qed

section \<open>Properties of the Loader\<close>

lemma sublist_missing_msg: "sublist key (missing_msg key)"
proof -
  have "missing_msg key = (''COCO file missing '' @ [CHR 0x27]) @ key @ ([CHR 0x27] @ '' section'')"
    by (simp add: missing_msg_def)
  then show ?thesis by (metis sublist_appendI)
qed

lemma validate_keys_required:
  "validate_keys data [''images'', ''annotations'', ''categories''] =
     (if images data = None then Some (ValueError (missing_msg ''images''))
      else if annotations data = None then Some (ValueError (missing_msg ''annotations''))
      else if categories data = None then Some (ValueError (missing_msg ''categories''))
      else None)"
  by (simp add: has_key_def)

text \<open>
  Claim C5. Loading a parsed annotation file raises ValueError (SchemaError) exactly when
  one of the sections \<^verbatim>\<open>images\<close>, \<^verbatim>\<open>annotations\<close>, \<^verbatim>\<open>categories\<close> is absent; the message
  is the one of the first absent section, in that order, and contains its key; when the
  three are present the parsed data is returned as it is.
\<close>

theorem load_coco_spec:
  "((\<exists>e. load_coco (Inr data) = Inl e)
      \<longleftrightarrow> (images data = None \<or> annotations data = None \<or> categories data = None))
   \<and> (images data = None
        \<longrightarrow> load_coco (Inr data) = Inl (ValueError (missing_msg ''images'')))
   \<and> (images data \<noteq> None \<and> annotations data = None
        \<longrightarrow> load_coco (Inr data) = Inl (ValueError (missing_msg ''annotations'')))
   \<and> (images data \<noteq> None \<and> annotations data \<noteq> None \<and> categories data = None
        \<longrightarrow> load_coco (Inr data) = Inl (ValueError (missing_msg ''categories'')))
   \<and> (images data \<noteq> None \<and> annotations data \<noteq> None \<and> categories data \<noteq> None
        \<longrightarrow> load_coco (Inr data) = Inr data)
   \<and> (\<forall>key. sublist key (missing_msg key))"
proof -
  have "load_coco (Inr data) =
     (if images data = None then Inl (ValueError (missing_msg ''images''))
      else if annotations data = None then Inl (ValueError (missing_msg ''annotations''))
      else if categories data = None then Inl (ValueError (missing_msg ''categories''))
      else Inr data)"
    unfolding load_coco_def validate_keys_required by simp
  then show ?thesis
    using sublist_missing_msg by auto
qed

theorem load_coco_spec_witness:
  "load_coco (Inr \<lparr>images = Some [], annotations = Some [], categories = None\<rparr>)
     = Inl (ValueError (missing_msg ''categories''))
   \<and> sublist ''categories'' (missing_msg ''categories'')
   \<and> missing_msg ''categories''
     = ''COCO file missing '' @ [CHR 0x27] @ ''categories'' @ [CHR 0x27] @ '' section''
   \<and> load_coco (Inr \<lparr>images = Some [], annotations = Some [], categories = Some []\<rparr>)
     = Inr \<lparr>images = Some [], annotations = Some [], categories = Some []\<rparr>"
proof -
  have a: "load_coco (Inr \<lparr>images = Some [], annotations = Some [], categories = None\<rparr>)
     = Inl (ValueError (missing_msg ''categories''))"
    using load_coco_spec [of "\<lparr>images = Some [], annotations = Some [], categories = None\<rparr>"]
    by simp
  have b: "sublist ''categories'' (missing_msg ''categories'')"
    using load_coco_spec [of "\<lparr>images = Some [], annotations = Some [], categories = None\<rparr>"]
    by blast
  have c: "missing_msg ''categories''
     = ''COCO file missing '' @ [CHR 0x27] @ ''categories'' @ [CHR 0x27] @ '' section''"
    by (simp add: missing_msg_def)
  have d: "load_coco (Inr \<lparr>images = Some [], annotations = Some [], categories = Some []\<rparr>)
     = Inr \<lparr>images = Some [], annotations = Some [], categories = Some []\<rparr>"
    using load_coco_spec [of "\<lparr>images = Some [], annotations = Some [], categories = Some []\<rparr>"]
    by simp
  from a b c d show ?thesis by blast
qed

section \<open>Properties of dictionaries and of the Indexer\<close>

lemma dict_get_Nil: "dict_get [] k = None"
  by (simp add: dict_get_def)

lemma dict_get_dict_set:
  "dict_get (dict_set k v d) k' = (if k' = k then Some v else dict_get d k')"
  by (induction d) (auto simp: dict_get_def)

lemma set_dict_keys_dict_set:
  "set (dict_keys (dict_set k v d)) = insert k (set (dict_keys d))"
  by (induction d) (auto simp: dict_keys_def)

lemma distinct_dict_keys_dict_set:
  "distinct (dict_keys d) \<Longrightarrow> distinct (dict_keys (dict_set k v d))"
proof (induction d)
  case Nil
  then show ?case by (simp add: dict_keys_def)
next
  case (Cons p d)
  from Cons.prems have np: "fst p \<notin> set (dict_keys d)" and dd: "distinct (dict_keys d)"
    by (simp_all add: dict_keys_def)
  show ?case
  proof (cases "fst p = k")
    case True
    with np dd show ?thesis by (simp add: dict_keys_def)
  next
    case False
    with np have "fst p \<notin> set (dict_keys (dict_set k v d))"
      by (simp add: set_dict_keys_dict_set)
    moreover from dd have "distinct (dict_keys (dict_set k v d))" by (rule Cons.IH)
    ultimately show ?thesis using False by (simp add: dict_keys_def)
  qed
qed

lemma dict_get_fold_dict_set:
  "dict_get (fold (\<lambda>x d. dict_set (f x) x d) xs d0) k =
     (case filter (\<lambda>x. f x = k) xs of [] \<Rightarrow> dict_get d0 k | ys \<Rightarrow> Some (last ys))"
proof (induction xs arbitrary: d0)
  case Nil
  then show ?case by simp
next
  case (Cons x xs)
  show ?case
  proof (cases "f x = k")
    case True
    then show ?thesis
      by (simp add: Cons.IH dict_get_dict_set split: list.splits)
  next
    case False
    then show ?thesis
      by (simp add: Cons.IH dict_get_dict_set split: list.splits)
  qed
qed

lemma distinct_dict_keys_fold_dict_set:
  "distinct (dict_keys d0) \<Longrightarrow> distinct (dict_keys (fold (\<lambda>x d. dict_set (f x) x d) xs d0))"
  by (induction xs arbitrary: d0) (simp_all add: distinct_dict_keys_dict_set)

lemma set_dict_keys_fold_dict_set:
  "set (dict_keys (fold (\<lambda>x d. dict_set (f x) x d) xs d0)) = f ` set xs \<union> set (dict_keys d0)"
  by (induction xs arbitrary: d0) (auto simp: set_dict_keys_dict_set)

lemma dict_get_defaultdict_append:
  "dict_get (defaultdict_append d k a) k' =
     (if k' = k then Some (dict_get_default d k [] @ [a]) else dict_get d k')"
  by (cases "dict_get d k")
     (simp_all add: defaultdict_append_def defaultdict_getitem_def dict_get_default_def
        dict_get_dict_set)

lemma dict_get_fold_defaultdict_append:
  "dict_get (fold (\<lambda>a d. defaultdict_append d (f a) a) xs d0) k =
     (if filter (\<lambda>a. f a = k) xs = [] then dict_get d0 k
      else Some (dict_get_default d0 k [] @ filter (\<lambda>a. f a = k) xs))"
proof (induction xs arbitrary: d0)
  case Nil
  then show ?case by simp
next
  case (Cons x xs)
  show ?case
  proof (cases "f x = k")
    case True
    then show ?thesis
      by (simp add: Cons.IH dict_get_defaultdict_append dict_get_default_def)
  next
    case False
    then show ?thesis
      by (simp add: Cons.IH dict_get_defaultdict_append dict_get_default_def)
  qed
qed

lemma dict_get_default_fold_defaultdict_append:
  "dict_get_default (fold (\<lambda>a d. defaultdict_append d (f a) a) xs []) k [] =
     filter (\<lambda>a. f a = k) xs"
  by (simp add: dict_get_default_def dict_get_fold_defaultdict_append dict_get_Nil)

lemma build_indices_present:
  assumes "images c = Some imgs" "annotations c = Some anns" "categories c = Some cats"
  shows "build_indices c =
     Inr (fold (\<lambda>img d. dict_set (img_id img) img d) imgs [],
          fold (\<lambda>ann d. defaultdict_append d (image_id ann) ann) anns [],
          fold (\<lambda>cat d. dict_set (catg_id cat) cat d) cats [])"
  using assms by (simp add: build_indices_def)

text \<open>
  Claim C7. When the three sections are present the Indexer returns its three lookups:
  the annotations stored under an image id are exactly the annotations of the section
  whose \<^verbatim>\<open>image_id\<close> is that id, in the section's order; an id that no annotation
  refers to has no entry, and the lookup with the empty list as default gives the empty
  list; the image (the category) stored under an id is the last entry of the section
  that bears the id, and an id borne by no entry has none.
\<close>

theorem build_indices_spec:
  assumes "images c = Some imgs" "annotations c = Some anns" "categories c = Some cats"
  shows "\<exists>images_by_id anns_by_image categories_by_id.
     build_indices c = Inr (images_by_id, anns_by_image, categories_by_id)
     \<and> (\<forall>i. dict_get_default anns_by_image i [] = filter (\<lambda>a. image_id a = i) anns)
     \<and> (\<forall>i. dict_get anns_by_image i =
              (if filter (\<lambda>a. image_id a = i) anns = [] then None
               else Some (filter (\<lambda>a. image_id a = i) anns)))
     \<and> (\<forall>i. dict_get images_by_id i =
              (case filter (\<lambda>img. img_id img = i) imgs of
                 [] \<Rightarrow> None | xs \<Rightarrow> Some (last xs)))
     \<and> (\<forall>i. dict_get categories_by_id i =
              (case filter (\<lambda>cat. catg_id cat = i) cats of
                 [] \<Rightarrow> None | xs \<Rightarrow> Some (last xs)))"
proof -
  let ?ibi = "fold (\<lambda>img d. dict_set (img_id img) img d) imgs []"
  let ?abi = "fold (\<lambda>ann d. defaultdict_append d (image_id ann) ann) anns []"
  let ?cbi = "fold (\<lambda>cat d. dict_set (catg_id cat) cat d) cats []"
  have b: "build_indices c = Inr (?ibi, ?abi, ?cbi)"
    using assms by (rule build_indices_present)
  have a1: "\<forall>i. dict_get_default ?abi i [] = filter (\<lambda>a. image_id a = i) anns"
    by (simp add: dict_get_default_fold_defaultdict_append)
  have a2: "\<forall>i. dict_get ?abi i =
              (if filter (\<lambda>a. image_id a = i) anns = [] then None
               else Some (filter (\<lambda>a. image_id a = i) anns))"
    by (simp add: dict_get_fold_defaultdict_append dict_get_default_def dict_get_Nil)
  have i1: "\<forall>i. dict_get ?ibi i =
              (case filter (\<lambda>img. img_id img = i) imgs of
                 [] \<Rightarrow> None | xs \<Rightarrow> Some (last xs))"
    by (simp add: dict_get_fold_dict_set dict_get_Nil split: list.splits)
  have c1: "\<forall>i. dict_get ?cbi i =
              (case filter (\<lambda>cat. catg_id cat = i) cats of
                 [] \<Rightarrow> None | xs \<Rightarrow> Some (last xs))"
    by (simp add: dict_get_fold_dict_set dict_get_Nil split: list.splits)
  from b a1 a2 i1 c1 show ?thesis by blast
qed

theorem build_indices_spec_witness:
  "\<exists>images_by_id anns_by_image categories_by_id.
     build_indices
       \<lparr>images = Some [\<lparr>img_id = 1, file_name = ''a.png''\<rparr>,
        \<lparr>img_id = 2, file_name = ''b.png''\<rparr>,
        \<lparr>img_id = 1, file_name = ''c.png''\<rparr>],
      annotations = Some [\<lparr>ann_id = Some 10, image_id = 1, category_id = Some 5, bbox = [0, 0, 4, 4]\<rparr>,
        \<lparr>ann_id = Some 11, image_id = 2, category_id = Some 5, bbox = [1, 1, 2, 2]\<rparr>,
        \<lparr>ann_id = Some 12, image_id = 1, category_id = None, bbox = [2, 2, 3, 3]\<rparr>],
      categories = Some [\<lparr>catg_id = 5, catg_name = Some ''cat''\<rparr>]\<rparr>
       = Inr (images_by_id, anns_by_image, categories_by_id)
     \<and> dict_get_default anns_by_image 1 [] =
         [\<lparr>ann_id = Some 10, image_id = 1, category_id = Some 5, bbox = [0, 0, 4, 4]\<rparr>,
          \<lparr>ann_id = Some 12, image_id = 1, category_id = None, bbox = [2, 2, 3, 3]\<rparr>]
     \<and> dict_get_default anns_by_image 3 [] = []
     \<and> dict_get anns_by_image 3 = None
     \<and> dict_get images_by_id 1 = Some \<lparr>img_id = 1, file_name = ''c.png''\<rparr>
     \<and> dict_get categories_by_id 7 = None"
proof -
  let ?imgs = "[\<lparr>img_id = 1, file_name = ''a.png''\<rparr>,
        \<lparr>img_id = 2, file_name = ''b.png''\<rparr>,
        \<lparr>img_id = 1, file_name = ''c.png''\<rparr>]"
  let ?anns = "[\<lparr>ann_id = Some 10, image_id = 1, category_id = Some 5, bbox = [0, 0, 4, 4]\<rparr>,
        \<lparr>ann_id = Some 11, image_id = 2, category_id = Some 5, bbox = [1, 1, 2, 2]\<rparr>,
        \<lparr>ann_id = Some 12, image_id = 1, category_id = None, bbox = [2, 2, 3, 3]\<rparr>]"
  let ?cats = "[\<lparr>catg_id = 5, catg_name = Some ''cat''\<rparr>]"
  let ?c = "\<lparr>images = Some ?imgs, annotations = Some ?anns, categories = Some ?cats\<rparr>"
  have h1: "images ?c = Some ?imgs" by simp
  have h2: "annotations ?c = Some ?anns" by simp
  have h3: "categories ?c = Some ?cats" by simp
  from build_indices_spec [OF h1 h2 h3]
  obtain ibi abi cbi where b: "build_indices ?c = Inr (ibi, abi, cbi)"
    and g: "\<forall>i. dict_get_default abi i [] = filter (\<lambda>a. image_id a = i) ?anns"
    and n: "\<forall>i. dict_get abi i =
              (if filter (\<lambda>a. image_id a = i) ?anns = [] then None
               else Some (filter (\<lambda>a. image_id a = i) ?anns))"
    and i: "\<forall>i. dict_get ibi i =
              (case filter (\<lambda>img. img_id img = i) ?imgs of
                 [] \<Rightarrow> None | xs \<Rightarrow> Some (last xs))"
    and c: "\<forall>i. dict_get cbi i =
              (case filter (\<lambda>cat. catg_id cat = i) ?cats of
                 [] \<Rightarrow> None | xs \<Rightarrow> Some (last xs))"
    by blast
  have r1: "dict_get_default abi 1 [] =
         [\<lparr>ann_id = Some 10, image_id = 1, category_id = Some 5, bbox = [0, 0, 4, 4]\<rparr>,
          \<lparr>ann_id = Some 12, image_id = 1, category_id = None, bbox = [2, 2, 3, 3]\<rparr>]"
    by (simp add: g)
  have r2: "dict_get_default abi 3 [] = []" by (simp add: g)
  have r3: "dict_get abi 3 = None" by (simp add: n)
  have r4: "dict_get ibi 1 = Some \<lparr>img_id = 1, file_name = ''c.png''\<rparr>" by (simp add: i)
  have r5: "dict_get cbi 7 = None" by (simp add: c)
  from b r1 r2 r3 r4 r5 show ?thesis by blast
qed

section \<open>Properties of the Color Assigner\<close>

lemma next_cycle_drop:
  assumes "cs \<noteq> []" "j \<le> length cs"
  shows "next_cycle (drop j cs, cs) =
           Some (cs ! (j mod length cs), (drop (Suc (j mod length cs)) cs, cs))"
proof (cases "j < length cs")
  case True
  then have "drop j cs = cs ! j # drop (Suc j) cs"
    by (simp add: Cons_nth_drop_Suc)
  with True show ?thesis by simp
next
  case False
  with assms(2) have j: "j = length cs" by simp
  from assms(1) obtain y ys where c: "cs = y # ys" by (cases cs) auto
  from j c show ?thesis by simp
qed

lemma mod_step: "Suc (j mod n + i) mod n = Suc (j + i) mod n"
  for n j i :: nat
  by (metis mod_Suc_eq mod_add_left_eq)

lemma assign_colors_cycle:
  assumes "cs \<noteq> []" "j \<le> length cs" "distinct ks"
  shows "\<exists>m'. assign_colors ks (drop j cs, cs) m = Inr m'
     \<and> (\<forall>i<length ks. dict_get m' (ks ! i) = Some (cs ! ((j + i) mod length cs)))
     \<and> (\<forall>k. k \<notin> set ks \<longrightarrow> dict_get m' k = dict_get m k)"
  using assms(2,3)
proof (induction ks arbitrary: j m)
  case Nil
  then show ?case by simp
next
  case (Cons k ks)
  let ?n = "length cs"
  let ?c = "cs ! (j mod ?n)"
  let ?j = "Suc (j mod ?n)"
  from assms(1) have n: "0 < ?n" by simp
  then have j': "?j \<le> ?n" by (simp add: Suc_leI)
  from Cons.prems have dk: "k \<notin> set ks" and dks: "distinct ks" by simp_all
  from Cons.IH [OF j' dks, of "dict_set k ?c m"]
  obtain m' where r: "assign_colors ks (drop ?j cs, cs) (dict_set k ?c m) = Inr m'"
    and a: "\<forall>i<length ks. dict_get m' (ks ! i) = Some (cs ! ((?j + i) mod ?n))"
    and o: "\<forall>k'. k' \<notin> set ks \<longrightarrow> dict_get m' k' = dict_get (dict_set k ?c m) k'"
    by blast
  have e: "assign_colors (k # ks) (drop j cs, cs) m = Inr m'"
    using r next_cycle_drop [OF assms(1) Cons.prems(1)] by simp
  have p: "dict_get m' ((k # ks) ! i) = Some (cs ! ((j + i) mod ?n))"
    if "i < length (k # ks)" for i
  proof (cases i)
    case 0
    from o dk have "dict_get m' k = dict_get (dict_set k ?c m) k" by blast
    with 0 show ?thesis by (simp add: dict_get_dict_set)
  next
    case (Suc i')
    with that have "i' < length ks" by simp
    with a have "dict_get m' (ks ! i') = Some (cs ! ((?j + i') mod ?n))" by blast
    with Suc show ?thesis by (simp add: mod_step)
  qed
  have q: "dict_get m' k' = dict_get m k'" if "k' \<notin> set (k # ks)" for k'
  proof -
    from that have "k' \<notin> set ks" and "k' \<noteq> k" by simp_all
    with o show ?thesis by (simp add: dict_get_dict_set)
  qed
  from e p q show ?case by blast
qed

lemma palette_nonempty: "palette rc \<noteq> []"
  by (simp add: palette_def fallback_palette_def split: option.splits)

lemma sort_three:
  assumes "distinct ks" "set ks = {1, 3, 5 :: int}"
  shows "sort ks = [1, 3, 5]"
proof -
  have "sorted (sort ks)" "distinct (sort ks)" "set (sort ks) = set [1, 3, 5 :: int]"
    using assms by simp_all
  moreover have "sorted [1, 3, 5 :: int]" "distinct [1, 3, 5 :: int]" by simp_all
  ultimately show ?thesis
    using sorted_distinct_set_unique by blast
qed

text \<open>
  Claim C6. For a dictionary of categories (its keys are distinct) the Color Assigner
  returns a map in which the id at position \<open>i\<close> of the ascending order of the ids has
  the palette color at \<open>i mod\<close> the length of the palette, and no other id has a color.
  In particular, when the ids are 1, 3 and 5, in whatever order the dictionary holds
  them, id 1 has color 0, id 3 has color 1 and id 5 has color 2 (taken modulo the length
  of the palette, so these are the colors at 0, 1 and 2 of a palette of three or more).
\<close>

theorem category_color_map_spec:
  assumes "distinct (dict_keys categories_by_id)"
  shows "\<exists>color_map.
     category_color_map rc categories_by_id = Inr color_map
     \<and> sorted (sort (dict_keys categories_by_id))
     \<and> set (sort (dict_keys categories_by_id)) = set (dict_keys categories_by_id)
     \<and> (\<forall>i<length (dict_keys categories_by_id).
           dict_get color_map (sort (dict_keys categories_by_id) ! i)
             = Some (palette rc ! (i mod length (palette rc))))
     \<and> (\<forall>k. k \<notin> set (dict_keys categories_by_id) \<longrightarrow> dict_get color_map k = None)
     \<and> (set (dict_keys categories_by_id) = {1, 3, 5} \<longrightarrow>
           dict_get color_map 1 = Some (palette rc ! (0 mod length (palette rc)))
         \<and> dict_get color_map 3 = Some (palette rc ! (1 mod length (palette rc)))
         \<and> dict_get color_map 5 = Some (palette rc ! (2 mod length (palette rc)))
         \<and> (3 \<le> length (palette rc) \<longrightarrow>
               dict_get color_map 1 = Some (palette rc ! 0)
             \<and> dict_get color_map 3 = Some (palette rc ! 1)
             \<and> dict_get color_map 5 = Some (palette rc ! 2)))"
proof -
  let ?ks = "sort (dict_keys categories_by_id)"
  let ?cs = "palette rc"
  have d: "distinct ?ks" using assms by simp
  have z: "0 \<le> length ?cs" by simp
  have "\<exists>m'. assign_colors ?ks (drop 0 ?cs, ?cs) [] = Inr m'
     \<and> (\<forall>i<length ?ks. dict_get m' (?ks ! i) = Some (?cs ! ((0 + i) mod length ?cs)))
     \<and> (\<forall>k. k \<notin> set ?ks \<longrightarrow> dict_get m' k = dict_get [] k)"
    by (rule assign_colors_cycle [OF palette_nonempty z d])
  then obtain cm where r: "assign_colors ?ks (?cs, ?cs) [] = Inr cm"
    and a: "\<forall>i<length ?ks. dict_get cm (?ks ! i) = Some (?cs ! (i mod length ?cs))"
    and o: "\<forall>k. k \<notin> set ?ks \<longrightarrow> dict_get cm k = None"
    by (auto simp: dict_get_Nil)
  have e: "category_color_map rc categories_by_id = Inr cm"
    using r by (simp add: category_color_map_def cycle_def)
  have a': "\<forall>i<length (dict_keys categories_by_id).
           dict_get cm (?ks ! i) = Some (?cs ! (i mod length ?cs))"
    using a by simp
  have o': "\<forall>k. k \<notin> set (dict_keys categories_by_id) \<longrightarrow> dict_get cm k = None"
    using o by simp
  have x: "dict_get cm 1 = Some (?cs ! (0 mod length ?cs))
         \<and> dict_get cm 3 = Some (?cs ! (1 mod length ?cs))
         \<and> dict_get cm 5 = Some (?cs ! (2 mod length ?cs))"
    if s: "set (dict_keys categories_by_id) = {1, 3, 5}"
  proof -
    from assms s have k: "?ks = [1, 3, 5]" by (rule sort_three)
    from a k have f: "dict_get cm ([1, 3, 5] ! i) = Some (?cs ! (i mod length ?cs))"
      if "i < 3" for i
      using that by simp
    have "(0::nat) < 3" "(1::nat) < 3" "(2::nat) < 3" by simp_all
    from this [THEN f]
    have "dict_get cm ([1, 3, 5] ! 0) = Some (?cs ! (0 mod length ?cs))"
      and "dict_get cm ([1, 3, 5] ! 1) = Some (?cs ! (1 mod length ?cs))"
      and "dict_get cm ([1, 3, 5] ! 2) = Some (?cs ! (2 mod length ?cs))"
      by blast+
    then show ?thesis by simp
  qed
  have y: "dict_get cm 1 = Some (?cs ! 0) \<and> dict_get cm 3 = Some (?cs ! 1)
         \<and> dict_get cm 5 = Some (?cs ! 2)"
    if s: "set (dict_keys categories_by_id) = {1, 3, 5}" and l: "3 \<le> length ?cs"
    using x [OF s] l by simp
  have so: "sorted ?ks" "set ?ks = set (dict_keys categories_by_id)" by simp_all
  from e so a' o' x y show ?thesis by blast
qed

theorem category_color_map_spec_witness:
  "distinct (dict_keys [(5::int, \<lparr>catg_id = 5, catg_name = Some ''dog''\<rparr>), (1, \<lparr>catg_id = 1, catg_name = Some ''cat''\<rparr>), (3, \<lparr>catg_id = 3, catg_name = None\<rparr>)])
   \<and> (\<exists>color_map.
         category_color_map (Some [''red'', ''green'', ''blue'', ''cyan''])
           [(5::int, \<lparr>catg_id = 5, catg_name = Some ''dog''\<rparr>), (1, \<lparr>catg_id = 1, catg_name = Some ''cat''\<rparr>), (3, \<lparr>catg_id = 3, catg_name = None\<rparr>)] = Inr color_map
       \<and> dict_get color_map 1 = Some ''red''
       \<and> dict_get color_map 3 = Some ''green''
       \<and> dict_get color_map 5 = Some ''blue''
       \<and> dict_get color_map 2 = None)
   \<and> (\<exists>color_map.
         category_color_map None
           [(5::int, \<lparr>catg_id = 5, catg_name = Some ''dog''\<rparr>), (1, \<lparr>catg_id = 1, catg_name = Some ''cat''\<rparr>), (3, \<lparr>catg_id = 3, catg_name = None\<rparr>)] = Inr color_map
       \<and> dict_get color_map 1 = Some ''C0''
       \<and> dict_get color_map 3 = Some ''C1''
       \<and> dict_get color_map 5 = Some ''C2'')"
proof -
  let ?d = "[(5::int, \<lparr>catg_id = 5, catg_name = Some ''dog''\<rparr>), (1, \<lparr>catg_id = 1, catg_name = Some ''cat''\<rparr>), (3, \<lparr>catg_id = 3, catg_name = None\<rparr>)]"
  have k: "dict_keys ?d = [5, 1, 3]" by (simp add: dict_keys_def)
  have d: "distinct (dict_keys ?d)" by (simp add: k)
  have s: "set (dict_keys ?d) = {1, 3, 5}" by (auto simp: k)
  have n: "2 \<notin> set (dict_keys ?d)" by (simp add: k)
  have p: "palette (Some [''red'', ''green'', ''blue'', ''cyan''])
             = [''red'', ''green'', ''blue'', ''cyan'']"
    by (simp add: palette_def)
  have q: "palette None =
     [''C0'', ''C1'', ''C2'', ''C3'', ''C4'', ''C5'', ''C6'', ''C7'', ''C8'', ''C9'']"
    by code_simp
  from category_color_map_spec [OF d, of "Some [''red'', ''green'', ''blue'', ''cyan'']"]
  obtain cm where "category_color_map (Some [''red'', ''green'', ''blue'', ''cyan'']) ?d = Inr cm"
    and "\<forall>k. k \<notin> set (dict_keys ?d) \<longrightarrow> dict_get cm k = None"
    and "set (dict_keys ?d) = {1, 3, 5} \<longrightarrow>
           dict_get cm 1 = Some (palette (Some [''red'', ''green'', ''blue'', ''cyan'']) ! (0 mod length (palette (Some [''red'', ''green'', ''blue'', ''cyan'']))))
         \<and> dict_get cm 3 = Some (palette (Some [''red'', ''green'', ''blue'', ''cyan'']) ! (1 mod length (palette (Some [''red'', ''green'', ''blue'', ''cyan'']))))
         \<and> dict_get cm 5 = Some (palette (Some [''red'', ''green'', ''blue'', ''cyan'']) ! (2 mod length (palette (Some [''red'', ''green'', ''blue'', ''cyan'']))))
         \<and> (3 \<le> length (palette (Some [''red'', ''green'', ''blue'', ''cyan''])) \<longrightarrow>
               dict_get cm 1 = Some (palette (Some [''red'', ''green'', ''blue'', ''cyan'']) ! 0)
             \<and> dict_get cm 3 = Some (palette (Some [''red'', ''green'', ''blue'', ''cyan'']) ! 1)
             \<and> dict_get cm 5 = Some (palette (Some [''red'', ''green'', ''blue'', ''cyan'']) ! 2))"
    by blast
  with s n p have a: "\<exists>color_map.
         category_color_map (Some [''red'', ''green'', ''blue'', ''cyan'']) ?d = Inr color_map
       \<and> dict_get color_map 1 = Some ''red''
       \<and> dict_get color_map 3 = Some ''green''
       \<and> dict_get color_map 5 = Some ''blue''
       \<and> dict_get color_map 2 = None"
    by simp
  from category_color_map_spec [OF d, of None]
  obtain cm' where "category_color_map None ?d = Inr cm'"
    and "set (dict_keys ?d) = {1, 3, 5} \<longrightarrow>
           dict_get cm' 1 = Some (palette None ! (0 mod length (palette None)))
         \<and> dict_get cm' 3 = Some (palette None ! (1 mod length (palette None)))
         \<and> dict_get cm' 5 = Some (palette None ! (2 mod length (palette None)))
         \<and> (3 \<le> length (palette None) \<longrightarrow>
               dict_get cm' 1 = Some (palette None ! 0)
             \<and> dict_get cm' 3 = Some (palette None ! 1)
             \<and> dict_get cm' 5 = Some (palette None ! 2))"
    by blast
  with s q have b: "\<exists>color_map.
         category_color_map None ?d = Inr color_map
       \<and> dict_get color_map 1 = Some ''C0''
       \<and> dict_get color_map 3 = Some ''C1''
       \<and> dict_get color_map 5 = Some ''C2''"
    by simp
  from d a b show ?thesis by blast
qed

section \<open>Properties of pyplot and of the Renderer\<close>

lemma fold_max_ge: "a \<le> fold max ks (a::nat)"
proof (induction ks arbitrary: a)
  case Nil
  then show ?case by simp
next
  case (Cons k ks)
  have "a \<le> max k a" by simp
  also have "\<dots> \<le> fold max ks (max k a)" by (rule Cons.IH)
  finally show ?case by simp
qed

lemma fold_max_ge_elem: "k \<in> set ks \<Longrightarrow> k \<le> fold max ks (a::nat)"
proof (induction ks arbitrary: a)
  case Nil
  then show ?case by simp
next
  case (Cons x ks)
  show ?case
  proof (cases "k = x")
    case True
    have "k \<le> max x a" using True by simp
    also have "\<dots> \<le> fold max ks (max x a)" by (rule fold_max_ge)
    finally show ?thesis by simp
  next
    case False
    with Cons.prems have "k \<in> set ks" by simp
    then have "k \<le> fold max ks (max x a)" by (rule Cons.IH)
    then show ?thesis by simp
  qed
qed

lemma next_fignum_fresh: "next_fignum plt \<notin> set (dict_keys plt)"
proof
  assume "next_fignum plt \<in> set (dict_keys plt)"
  then have "next_fignum plt \<le> fold max (dict_keys plt) 0" by (rule fold_max_ge_elem)
  moreover from \<open>next_fignum plt \<in> set (dict_keys plt)\<close> have "plt \<noteq> []"
    by (auto simp: dict_keys_def)
  ultimately show False by (simp add: next_fignum_def)
qed

lemma dict_get_append_fresh:
  "num \<notin> set (dict_keys plt) \<Longrightarrow> dict_get (plt @ [(num, f)]) num = Some f"
proof -
  assume "num \<notin> set (dict_keys plt)"
  then have "map_of plt num = None"
    by (simp add: dict_keys_def map_of_eq_None_iff)
  then show ?thesis by (simp add: dict_get_def map_add_def)
qed

lemma update_figure_append_fresh:
  assumes "num \<notin> set (dict_keys plt)"
  shows "update_figure num g (plt @ [(num, f)]) = plt @ [(num, g f)]"
proof -
  have "map (\<lambda>(n, f). if n = num then (n, g f) else (n, f)) plt = plt"
    using assms by (induction plt) (auto simp: dict_keys_def)
  then show ?thesis by (simp add: update_figure_def)
qed

lemma update_axes_append_fresh:
  assumes "num \<notin> set (dict_keys plt)"
  shows "update_axes (num, 0) g (plt @ [(num, f\<lparr>fig_axes := [a]\<rparr>)])
           = plt @ [(num, f\<lparr>fig_axes := [g a]\<rparr>)]"
  by (simp add: update_axes_def update_figure_append_fresh [OF assms])

lemma draw_ann_fresh:
  assumes "num \<notin> set (dict_keys plt)"
  shows "draw_ann (num, 0) im cbi cm ann (plt @ [(num, f\<lparr>fig_axes := [a]\<rparr>)]) =
     (case paint_ann im cbi cm ann a of
        Inl e \<Rightarrow> Inl e
      | Inr a' \<Rightarrow> Inr (plt @ [(num, f\<lparr>fig_axes := [a']\<rparr>)]))"
  by (simp add: draw_ann_def paint_ann_def ax_add_patch_def ax_text_def Let_def
        update_axes_append_fresh [OF assms] split: list.splits)

lemma draw_anns_fresh:
  assumes "num \<notin> set (dict_keys plt)"
  shows "draw_anns (num, 0) im cbi cm anns (plt @ [(num, f\<lparr>fig_axes := [a]\<rparr>)]) =
     (case paint_anns im cbi cm anns a of
        Inl e \<Rightarrow> Inl e
      | Inr a' \<Rightarrow> Inr (plt @ [(num, f\<lparr>fig_axes := [a']\<rparr>)]))"
proof (induction anns arbitrary: a)
  case Nil
  then show ?case by simp
next
  case (Cons ann anns)
  show ?case
  proof (cases "paint_ann im cbi cm ann a")
    case (Inl e)
    then show ?thesis by (simp add: draw_ann_fresh [OF assms])
  next
    case (Inr a')
    then show ?thesis by (simp add: draw_ann_fresh [OF assms] Cons.IH)
  qed
qed

lemma plt_axes_fresh:
  assumes "num \<notin> set (dict_keys plt)"
  shows "plt_axes (plt @ [(num, new_figure figsize dpi)]) position =
           ((num, 0), plt @ [(num, (new_figure figsize dpi)\<lparr>fig_axes := [new_axes position]\<rparr>)])"
  by (simp add: plt_axes_def plt_gcf_def dict_get_append_fresh [OF assms]
        update_figure_append_fresh [OF assms] new_figure_def)

lemma draw_image_with_bboxes_render:
  "draw_image_with_bboxes wld plt img_path anns cbi cm dpi =
     (case render wld img_path anns cbi cm dpi of
        Inl e \<Rightarrow> Inl e
      | Inr f \<Rightarrow> Inr (next_fignum plt, plt @ [(next_fignum plt, f)]))"
proof (cases "image_open wld img_path")
  case (Inl e)
  then show ?thesis by (simp add: draw_image_with_bboxes_def render_def)
next
  case (Inr im)
  let ?fs = "(of_nat (im_width im) / of_int dpi, of_nat (im_height im) / of_int dpi) :: rat \<times> rat"
  let ?n = "next_fignum plt"
  show ?thesis
  proof (cases "dpi = 0 \<or> fst ?fs < 0 \<or> snd ?fs < 0")
    case True
    with Inr show ?thesis
      by (auto simp: draw_image_with_bboxes_def render_def plt_figure_def)
  next
    case False
    have fr: "?n \<notin> set (dict_keys plt)" by (rule next_fignum_fresh)
    have pf: "plt_figure plt ?fs dpi = Inr (?n, plt @ [(?n, new_figure ?fs dpi)])"
      using False by (simp add: plt_figure_def Let_def)
    have ax: "plt_axes (plt @ [(?n, new_figure ?fs dpi)]) [0, 0, 1, 1] =
           ((?n, 0), plt @ [(?n, (new_figure ?fs dpi)\<lparr>fig_axes := [new_axes [0, 0, 1, 1]]\<rparr>)])"
      by (rule plt_axes_fresh [OF fr])
    have sh: "ax_axis_off (?n, 0) (ax_imshow (?n, 0) im
                (plt @ [(?n, (new_figure ?fs dpi)\<lparr>fig_axes := [new_axes [0, 0, 1, 1]]\<rparr>)]))
              = plt @ [(?n, (new_figure ?fs dpi)\<lparr>fig_axes := [base_axes im]\<rparr>)]"
      by (simp add: ax_axis_off_def ax_imshow_def update_axes_append_fresh [OF fr]
            new_axes_def base_axes_def)
    have dr: "draw_image_with_bboxes wld plt img_path anns cbi cm dpi =
       (case draw_anns (?n, 0) im cbi cm anns
               (plt @ [(?n, (new_figure ?fs dpi)\<lparr>fig_axes := [base_axes im]\<rparr>)]) of
          Inl e \<Rightarrow> Inl e
        | Inr plt5 \<Rightarrow> Inr (?n, plt5))"
      using Inr False
      by (simp add: draw_image_with_bboxes_def pf ax sh Let_def)
    have rn: "render wld img_path anns cbi cm dpi =
       (case paint_anns im cbi cm anns (base_axes im) of
          Inl e \<Rightarrow> Inl e
        | Inr a \<Rightarrow> Inr ((new_figure ?fs dpi)\<lparr>fig_axes := [a]\<rparr>))"
      using Inr False
      by (auto simp: render_def new_figure_def split: sum.splits)
    show ?thesis
      unfolding dr rn draw_anns_fresh [OF fr]
      by (simp split: sum.splits)
  qed
qed

lemma rectangles_append: "rectangles (ps @ qs) = rectangles ps @ rectangles qs"
  by (induction ps rule: rectangles.induct) simp_all

lemma paint_ann_Inr:
  assumes "paint_ann im cbi cm ann a = Inr a'"
  shows "length (bbox ann) = 4
     \<and> rectangles (ax_patches a') = rectangles (ax_patches a) @
         [make_rect im (box_color cm (category_id ann))
            (bbox ann ! 0) (bbox ann ! 1) (bbox ann ! 2) (bbox ann ! 3)]"
proof -
  from assms obtain x y w h where b: "bbox ann = [x, y, w, h]"
    by (auto simp: paint_ann_def split: list.splits)
  with assms show ?thesis
    by (auto simp: paint_ann_def rectangles_append)
qed

lemma paint_anns_Inr:
  assumes "paint_anns im cbi cm anns a = Inr a'"
  shows "(\<forall>ann\<in>set anns. length (bbox ann) = 4)
     \<and> rectangles (ax_patches a') = rectangles (ax_patches a) @
         map (\<lambda>ann. make_rect im (box_color cm (category_id ann))
                (bbox ann ! 0) (bbox ann ! 1) (bbox ann ! 2) (bbox ann ! 3)) anns"
  using assms
proof (induction anns arbitrary: a)
  case Nil
  then show ?case by simp
next
  case (Cons ann anns)
  from Cons.prems obtain a1 where p1: "paint_ann im cbi cm ann a = Inr a1"
    and p2: "paint_anns im cbi cm anns a1 = Inr a'"
    by (auto split: sum.splits)
  from paint_ann_Inr [OF p1] Cons.IH [OF p2] show ?case by simp
qed

lemma paint_ann_total:
  assumes "length (bbox ann) = 4"
  shows "\<exists>a'. paint_ann im cbi cm ann a = Inr a'"
proof -
  from assms have "\<exists>x y w h. bbox ann = [x, y, w, h]"
    by (auto simp: eval_nat_numeral length_Suc_conv)
  then obtain x y w h where "bbox ann = [x, y, w, h]" by blast
  then show ?thesis by (simp add: paint_ann_def)
qed

lemma paint_anns_total:
  assumes "\<forall>ann\<in>set anns. length (bbox ann) = 4"
  shows "\<exists>a'. paint_anns im cbi cm anns a = Inr a'"
  using assms
proof (induction anns arbitrary: a)
  case Nil
  then show ?case by simp
next
  case (Cons ann anns)
  from Cons.prems have "length (bbox ann) = 4" by simp
  from paint_ann_total [OF this] obtain a1 where "paint_ann im cbi cm ann a = Inr a1"
    by blast
  moreover from Cons.prems have "\<forall>ann\<in>set anns. length (bbox ann) = 4" by simp
  from Cons.IH [OF this] obtain a' where "paint_anns im cbi cm anns a1 = Inr a'"
    by blast
  ultimately show ?case by simp
qed

lemma render_Inr:
  assumes "render wld img_path anns cbi cm dpi = Inr f"
  shows "\<exists>im a. image_open wld img_path = Inr im
     \<and> paint_anns im cbi cm anns (base_axes im) = Inr a
     \<and> f = \<lparr>fig_figsize = (of_nat (im_width im) / of_int dpi,
                              of_nat (im_height im) / of_int dpi),
              fig_dpi = dpi, fig_axes = [a], fig_suptitle = None\<rparr>"
  using assms
  by (auto simp: render_def split: sum.splits if_splits)

lemma render_total:
  assumes "image_open wld img_path = Inr im" "0 < dpi"
    "\<forall>ann\<in>set anns. length (bbox ann) = 4"
  shows "\<exists>f. render wld img_path anns cbi cm dpi = Inr f"
proof -
  from paint_anns_total [OF assms(3)]
  obtain a where "paint_anns im cbi cm anns (base_axes im) = Inr a" by blast
  moreover have "\<not> (of_nat (im_width im) / of_int dpi < (0::rat))"
    and "\<not> (of_nat (im_height im) / of_int dpi < (0::rat))"
    using assms(2) by (simp_all add: not_less)
  ultimately show ?thesis
    using assms(1,2) by (simp add: render_def)
qed

lemma draw_Inr_render:
  assumes "draw_image_with_bboxes wld plt img_path anns cbi cm dpi = Inr (fig, plt')"
  shows "\<exists>f. render wld img_path anns cbi cm dpi = Inr f \<and> dict_get plt' fig = Some f"
proof -
  from assms obtain f where r: "render wld img_path anns cbi cm dpi = Inr f"
    and "fig = next_fignum plt" and "plt' = plt @ [(next_fignum plt, f)]"
    by (auto simp: draw_image_with_bboxes_render split: sum.splits)
  then have "dict_get plt' fig = Some f"
    by (simp add: dict_get_append_fresh [OF next_fignum_fresh])
  with r show ?thesis by blast
qed

text \<open>
  Claim C8. When the Renderer returns a figure, the rectangles among its patches are,
  in the order of the annotations, one per annotation: at the bbox's \<open>(x, y)\<close>, of the
  bbox's width and height, with no fill (face color \<^verbatim>\<open>none\<close>), with the edge color the
  color map gives for the annotation's category id, or \<^verbatim>\<open>white\<close> when the id is missing
  from the map or from the annotation, and with line width the maximum of \<open>1.5\<close> and
  \<open>0.002\<close> times the smaller side of the image. The Renderer does return a figure when
  the image decodes, the resolution is positive and every bbox has four entries.
\<close>

theorem draw_image_with_bboxes_rectangles:
  "(draw_image_with_bboxes wld plt img_path anns cbi cm dpi = Inr (fig, plt') \<longrightarrow>
      (\<exists>im f. image_open wld img_path = Inr im \<and> dict_get plt' fig = Some f
         \<and> (\<forall>ann\<in>set anns. length (bbox ann) = 4)
         \<and> rectangles (figure_patches f) =
             map (\<lambda>ann.
                    \<lparr>rect_xy = (bbox ann ! 0, bbox ann ! 1),
                     rect_width = bbox ann ! 2, rect_height = bbox ann ! 3,
                     rect_linewidth =
                       max (3 / 2) (of_nat (min (im_width im) (im_height im)) * (2 / 1000)),
                     rect_edgecolor =
                       (case category_id ann of
                          None \<Rightarrow> ''white''
                        | Some c \<Rightarrow> (case dict_get cm c of None \<Rightarrow> ''white'' | Some col \<Rightarrow> col)),
                     rect_facecolor = ''none''\<rparr>) anns))
   \<and> (\<forall>im. image_open wld img_path = Inr im \<and> 0 < dpi
             \<and> (\<forall>ann\<in>set anns. length (bbox ann) = 4) \<longrightarrow>
         (\<exists>fig plt'. draw_image_with_bboxes wld plt img_path anns cbi cm dpi = Inr (fig, plt')))"
proof (intro conjI impI allI)
  assume d: "draw_image_with_bboxes wld plt img_path anns cbi cm dpi = Inr (fig, plt')"
  from draw_Inr_render [OF d] obtain f
    where r: "render wld img_path anns cbi cm dpi = Inr f" and g: "dict_get plt' fig = Some f"
    by blast
  from render_Inr [OF r] obtain im a where o: "image_open wld img_path = Inr im"
    and p: "paint_anns im cbi cm anns (base_axes im) = Inr a"
    and f: "f = \<lparr>fig_figsize = (of_nat (im_width im) / of_int dpi,
                              of_nat (im_height im) / of_int dpi),
              fig_dpi = dpi, fig_axes = [a], fig_suptitle = None\<rparr>"
    by blast
  from paint_anns_Inr [OF p] have l: "\<forall>ann\<in>set anns. length (bbox ann) = 4"
    and q: "rectangles (ax_patches a) =
         map (\<lambda>ann. make_rect im (box_color cm (category_id ann))
                (bbox ann ! 0) (bbox ann ! 1) (bbox ann ! 2) (bbox ann ! 3)) anns"
    by (simp_all add: base_axes_def)
  have "rectangles (figure_patches f) =
             map (\<lambda>ann.
                    \<lparr>rect_xy = (bbox ann ! 0, bbox ann ! 1),
                     rect_width = bbox ann ! 2, rect_height = bbox ann ! 3,
                     rect_linewidth =
                       max (3 / 2) (of_nat (min (im_width im) (im_height im)) * (2 / 1000)),
                     rect_edgecolor =
                       (case category_id ann of
                          None \<Rightarrow> ''white''
                        | Some c \<Rightarrow> (case dict_get cm c of None \<Rightarrow> ''white'' | Some col \<Rightarrow> col)),
                     rect_facecolor = ''none''\<rparr>) anns"
    unfolding f figure_patches_def
    by (simp add: q make_rect_def box_color_def linewidth_of_def dict_get_default_def
          split: option.splits)
  with o g l show "\<exists>im f. image_open wld img_path = Inr im \<and> dict_get plt' fig = Some f
         \<and> (\<forall>ann\<in>set anns. length (bbox ann) = 4)
         \<and> rectangles (figure_patches f) =
             map (\<lambda>ann.
                    \<lparr>rect_xy = (bbox ann ! 0, bbox ann ! 1),
                     rect_width = bbox ann ! 2, rect_height = bbox ann ! 3,
                     rect_linewidth =
                       max (3 / 2) (of_nat (min (im_width im) (im_height im)) * (2 / 1000)),
                     rect_edgecolor =
                       (case category_id ann of
                          None \<Rightarrow> ''white''
                        | Some c \<Rightarrow> (case dict_get cm c of None \<Rightarrow> ''white'' | Some col \<Rightarrow> col)),
                     rect_facecolor = ''none''\<rparr>) anns"
    by blast
next
  fix im
  assume h: "image_open wld img_path = Inr im \<and> 0 < dpi
             \<and> (\<forall>ann\<in>set anns. length (bbox ann) = 4)"
  then have "\<exists>f. render wld img_path anns cbi cm dpi = Inr f"
    using render_total by blast
  then show "\<exists>fig plt'. draw_image_with_bboxes wld plt img_path anns cbi cm dpi = Inr (fig, plt')"
    by (auto simp: draw_image_with_bboxes_render)
qed

theorem draw_image_with_bboxes_rectangles_witness:
  "\<exists>fig plt' f.
     draw_image_with_bboxes
       \<lparr>folder_exists = True, folder_is_dir = True, listdir = [''coco.json'', ''a.png''],
       json_load = (\<lambda>p. Inl (OSError [])), joinpath = (\<lambda>d n. d @ ''/'' @ n),
       path_exists = (\<lambda>p. True),
       image_open = (\<lambda>p. Inr \<lparr>im_width = 2000, im_height = 1500\<rparr>),
       rc_colors = None, mkdir_error = (\<lambda>p. None), savefig_error = (\<lambda>p. None)\<rparr>
       [] ''data/a.png''
       [\<lparr>ann_id = Some 10, image_id = 1, category_id = Some 5, bbox = [10, 20, 30, 40]\<rparr>,
        \<lparr>ann_id = None, image_id = 1, category_id = Some 9, bbox = [1, 2, 3, 4]\<rparr>]
       [(5, \<lparr>catg_id = 5, catg_name = Some ''cat''\<rparr>)]
       [(5, ''red'')] 120 = Inr (fig, plt')
     \<and> dict_get plt' fig = Some f
     \<and> rectangles (figure_patches f) =
         [\<lparr>rect_xy = (10, 20), rect_width = 30, rect_height = 40, rect_linewidth = 3,
           rect_edgecolor = ''red'', rect_facecolor = ''none''\<rparr>,
          \<lparr>rect_xy = (1, 2), rect_width = 3, rect_height = 4, rect_linewidth = 3,
           rect_edgecolor = ''white'', rect_facecolor = ''none''\<rparr>]"
proof -
  let ?w = "\<lparr>folder_exists = True, folder_is_dir = True, listdir = [''coco.json'', ''a.png''],
       json_load = (\<lambda>p. Inl (OSError [])), joinpath = (\<lambda>d n. d @ ''/'' @ n),
       path_exists = (\<lambda>p. True),
       image_open = (\<lambda>p. Inr \<lparr>im_width = 2000, im_height = 1500\<rparr>),
       rc_colors = None, mkdir_error = (\<lambda>p. None), savefig_error = (\<lambda>p. None)\<rparr>"
  let ?anns = "[\<lparr>ann_id = Some 10, image_id = 1, category_id = Some 5, bbox = [10, 20, 30, 40]\<rparr>,
        \<lparr>ann_id = None, image_id = 1, category_id = Some 9, bbox = [1, 2, 3, 4]\<rparr>]"
  let ?cbi = "[(5, \<lparr>catg_id = 5, catg_name = Some ''cat''\<rparr>)]"
  let ?cm = "[(5, ''red'')]"
  let ?im = "\<lparr>im_width = 2000, im_height = 1500\<rparr>"
  have o: "image_open ?w ''data/a.png'' = Inr ?im" by simp
  have l: "\<forall>ann\<in>set ?anns. length (bbox ann) = 4" by simp
  have z: "(0::int) < 120" by simp
  from draw_image_with_bboxes_rectangles [of ?w "[]" "''data/a.png''" ?anns ?cbi ?cm 120] o l z
  obtain fig plt' where d: "draw_image_with_bboxes ?w [] ''data/a.png'' ?anns ?cbi ?cm 120
                              = Inr (fig, plt')"
    by blast
  from draw_image_with_bboxes_rectangles
         [of ?w "[]" "''data/a.png''" ?anns ?cbi ?cm 120 fig plt'] d
  obtain im f where o': "image_open ?w ''data/a.png'' = Inr im"
    and g: "dict_get plt' fig = Some f"
    and r: "rectangles (figure_patches f) =
             map (\<lambda>ann.
                    \<lparr>rect_xy = (bbox ann ! 0, bbox ann ! 1),
                     rect_width = bbox ann ! 2, rect_height = bbox ann ! 3,
                     rect_linewidth =
                       max (3 / 2) (of_nat (min (im_width im) (im_height im)) * (2 / 1000)),
                     rect_edgecolor =
                       (case category_id ann of
                          None \<Rightarrow> ''white''
                        | Some c \<Rightarrow> (case dict_get ?cm c of None \<Rightarrow> ''white'' | Some col \<Rightarrow> col)),
                     rect_facecolor = ''none''\<rparr>) ?anns"
    by blast
  from o o' have i: "im = ?im" by simp
  have "rectangles (figure_patches f) =
         [\<lparr>rect_xy = (10, 20), rect_width = 30, rect_height = 40, rect_linewidth = 3,
           rect_edgecolor = ''red'', rect_facecolor = ''none''\<rparr>,
          \<lparr>rect_xy = (1, 2), rect_width = 3, rect_height = 4, rect_linewidth = 3,
           rect_edgecolor = ''white'', rect_facecolor = ''none''\<rparr>]"
    unfolding r i by (simp add: dict_get_def)
  with d g show ?thesis by blast
qed

text \<open>
  Claim C10. Rendering does not depend on the state of pyplot: for the same image file,
  annotations, category index, color map and resolution, a call of the Renderer in any
  state and a call in any other state (for instance the state the first call left)
  raise the same exception or return figures that are equal, so of the same size and
  resolution and with the same patches and texts at the same places; a returned figure
  is present in the state the call leaves.
\<close>

theorem draw_image_with_bboxes_deterministic:
  "returned_figure (draw_image_with_bboxes wld plt1 img_path anns cbi cm dpi)
     = returned_figure (draw_image_with_bboxes wld plt2 img_path anns cbi cm dpi)
   \<and> (\<forall>fig1 p1 fig2 p2.
         draw_image_with_bboxes wld plt1 img_path anns cbi cm dpi = Inr (fig1, p1)
       \<and> draw_image_with_bboxes wld plt2 img_path anns cbi cm dpi = Inr (fig2, p2) \<longrightarrow>
         (\<exists>f. dict_get p1 fig1 = Some f \<and> dict_get p2 fig2 = Some f
            \<and> (\<exists>im. image_open wld img_path = Inr im
                  \<and> fig_figsize f = (of_nat (im_width im) / of_int dpi,
                                      of_nat (im_height im) / of_int dpi))))
   \<and> ((\<exists>fig1 p1. draw_image_with_bboxes wld plt1 img_path anns cbi cm dpi = Inr (fig1, p1))
        \<longleftrightarrow> (\<exists>fig2 p2. draw_image_with_bboxes wld plt2 img_path anns cbi cm dpi = Inr (fig2, p2)))"
proof (intro conjI allI impI)
  show "returned_figure (draw_image_with_bboxes wld plt1 img_path anns cbi cm dpi)
     = returned_figure (draw_image_with_bboxes wld plt2 img_path anns cbi cm dpi)"
    by (simp add: returned_figure_def draw_image_with_bboxes_render
          dict_get_append_fresh [OF next_fignum_fresh] split: sum.splits)
next
  fix fig1 p1 fig2 p2
  assume h: "draw_image_with_bboxes wld plt1 img_path anns cbi cm dpi = Inr (fig1, p1)
       \<and> draw_image_with_bboxes wld plt2 img_path anns cbi cm dpi = Inr (fig2, p2)"
  from h draw_Inr_render [of wld plt1 img_path anns cbi cm dpi fig1 p1]
  obtain f where r: "render wld img_path anns cbi cm dpi = Inr f"
    and g1: "dict_get p1 fig1 = Some f" by blast
  from h draw_Inr_render [of wld plt2 img_path anns cbi cm dpi fig2 p2]
  obtain f' where r': "render wld img_path anns cbi cm dpi = Inr f'"
    and g2: "dict_get p2 fig2 = Some f'" by blast
  from r r' have "f' = f" by simp
  with g2 have g2': "dict_get p2 fig2 = Some f" by simp
  from render_Inr [OF r] obtain im where "image_open wld img_path = Inr im"
    and "fig_figsize f = (of_nat (im_width im) / of_int dpi, of_nat (im_height im) / of_int dpi)"
    by auto
  with g1 g2' show "\<exists>f. dict_get p1 fig1 = Some f \<and> dict_get p2 fig2 = Some f
            \<and> (\<exists>im. image_open wld img_path = Inr im
                  \<and> fig_figsize f = (of_nat (im_width im) / of_int dpi,
                                      of_nat (im_height im) / of_int dpi))"
    by blast
next
  show "(\<exists>fig1 p1. draw_image_with_bboxes wld plt1 img_path anns cbi cm dpi = Inr (fig1, p1))
        \<longleftrightarrow> (\<exists>fig2 p2. draw_image_with_bboxes wld plt2 img_path anns cbi cm dpi = Inr (fig2, p2))"
    by (simp add: draw_image_with_bboxes_render split: sum.splits)
qed

theorem draw_image_with_bboxes_deterministic_witness:
  "\<exists>fig1 p1 fig2 p2 f.
     draw_image_with_bboxes
       \<lparr>folder_exists = True, folder_is_dir = True, listdir = [''coco.json'', ''a.png''],
       json_load = (\<lambda>p. Inl (OSError [])), joinpath = (\<lambda>d n. d @ ''/'' @ n),
       path_exists = (\<lambda>p. True),
       image_open = (\<lambda>p. Inr \<lparr>im_width = 2000, im_height = 1500\<rparr>),
       rc_colors = None, mkdir_error = (\<lambda>p. None), savefig_error = (\<lambda>p. None)\<rparr>
       [] ''data/a.png''
       [\<lparr>ann_id = Some 10, image_id = 1, category_id = Some 5, bbox = [10, 20, 30, 40]\<rparr>,
        \<lparr>ann_id = None, image_id = 1, category_id = Some 9, bbox = [1, 2, 3, 4]\<rparr>]
       [(5, \<lparr>catg_id = 5, catg_name = Some ''cat''\<rparr>)]
       [(5, ''red'')] 120 = Inr (fig1, p1)
   \<and> draw_image_with_bboxes
       \<lparr>folder_exists = True, folder_is_dir = True, listdir = [''coco.json'', ''a.png''],
       json_load = (\<lambda>p. Inl (OSError [])), joinpath = (\<lambda>d n. d @ ''/'' @ n),
       path_exists = (\<lambda>p. True),
       image_open = (\<lambda>p. Inr \<lparr>im_width = 2000, im_height = 1500\<rparr>),
       rc_colors = None, mkdir_error = (\<lambda>p. None), savefig_error = (\<lambda>p. None)\<rparr>
       p1 ''data/a.png''
       [\<lparr>ann_id = Some 10, image_id = 1, category_id = Some 5, bbox = [10, 20, 30, 40]\<rparr>,
        \<lparr>ann_id = None, image_id = 1, category_id = Some 9, bbox = [1, 2, 3, 4]\<rparr>]
       [(5, \<lparr>catg_id = 5, catg_name = Some ''cat''\<rparr>)]
       [(5, ''red'')] 120 = Inr (fig2, p2)
   \<and> fig1 \<noteq> fig2
   \<and> dict_get p1 fig1 = Some f \<and> dict_get p2 fig2 = Some f
   \<and> fig_figsize f = (50 / 3, 25 / 2)"
proof -
  let ?w = "\<lparr>folder_exists = True, folder_is_dir = True, listdir = [''coco.json'', ''a.png''],
       json_load = (\<lambda>p. Inl (OSError [])), joinpath = (\<lambda>d n. d @ ''/'' @ n),
       path_exists = (\<lambda>p. True),
       image_open = (\<lambda>p. Inr \<lparr>im_width = 2000, im_height = 1500\<rparr>),
       rc_colors = None, mkdir_error = (\<lambda>p. None), savefig_error = (\<lambda>p. None)\<rparr>"
  let ?anns = "[\<lparr>ann_id = Some 10, image_id = 1, category_id = Some 5, bbox = [10, 20, 30, 40]\<rparr>,
        \<lparr>ann_id = None, image_id = 1, category_id = Some 9, bbox = [1, 2, 3, 4]\<rparr>]"
  let ?cbi = "[(5, \<lparr>catg_id = 5, catg_name = Some ''cat''\<rparr>)]"
  let ?cm = "[(5, ''red'')]"
  let ?im = "\<lparr>im_width = 2000, im_height = 1500\<rparr>"
  have o: "image_open ?w ''data/a.png'' = Inr ?im" by simp
  have l: "\<forall>ann\<in>set ?anns. length (bbox ann) = 4" by simp
  have z: "(0::int) < 120" by simp
  from render_total [OF o z l, of ?cbi ?cm]
  obtain f0 where r: "render ?w ''data/a.png'' ?anns ?cbi ?cm 120 = Inr f0" by blast
  have d1: "draw_image_with_bboxes ?w [] ''data/a.png'' ?anns ?cbi ?cm 120 = Inr (1, [(1, f0)])"
    unfolding draw_image_with_bboxes_render r by (simp add: next_fignum_def)
  have d2: "draw_image_with_bboxes ?w [(1, f0)] ''data/a.png'' ?anns ?cbi ?cm 120
              = Inr (2, [(1, f0), (2, f0)])"
    unfolding draw_image_with_bboxes_render r by (simp add: next_fignum_def dict_keys_def)
  have "\<exists>f. dict_get [(1::nat, f0)] 1 = Some f \<and> dict_get [(1::nat, f0), (2, f0)] 2 = Some f
            \<and> (\<exists>im. image_open ?w ''data/a.png'' = Inr im
                  \<and> fig_figsize f = (of_nat (im_width im) / of_int 120,
                                      of_nat (im_height im) / of_int 120))"
    by (rule draw_image_with_bboxes_deterministic
          [THEN conjunct2, THEN conjunct1, rule_format, OF conjI [OF d1 d2]])
  then obtain f where g1: "dict_get [(1::nat, f0)] 1 = Some f"
    and g2: "dict_get [(1::nat, f0), (2, f0)] 2 = Some f"
    and fs: "\<exists>im. image_open ?w ''data/a.png'' = Inr im
                  \<and> fig_figsize f = (of_nat (im_width im) / of_int 120,
                                      of_nat (im_height im) / of_int 120)"
    by blast
  from fs have sz: "fig_figsize f = (50 / 3, 25 / 2)" by simp
  have ne: "(1::nat) \<noteq> 2" by simp
  from d1 d2 ne g1 g2 sz show ?thesis by blast
qed

section \<open>The label of an annotation\<close>

lemma make_label_hash_1:
  "make_label [(1, \<lparr>catg_id = 1, catg_name = Some ''#1''\<rparr>)]
     \<lparr>ann_id = Some 7, image_id = 1, category_id = Some 1, bbox = [0, 0, 10, 10]\<rparr> = ''1#7''"
  by code_simp

lemma make_label_c_sharp:
  "make_label [(1, \<lparr>catg_id = 1, catg_name = Some ''C#''\<rparr>)]
     \<lparr>ann_id = None, image_id = 1, category_id = Some 1, bbox = [0, 0, 10, 10]\<rparr> = ''C''"
  by code_simp

lemma paint_anns_hash_1:
  "paint_anns \<lparr>im_width = 2000, im_height = 1500\<rparr>
     [(1, \<lparr>catg_id = 1, catg_name = Some ''#1''\<rparr>)] [(1, ''red'')]
     [\<lparr>ann_id = Some 7, image_id = 1, category_id = Some 1, bbox = [0, 0, 10, 10]\<rparr>]
     (base_axes \<lparr>im_width = 2000, im_height = 1500\<rparr>) =
       Inr ((base_axes \<lparr>im_width = 2000, im_height = 1500\<rparr>)
            \<lparr>ax_patches :=
               [Rectangle (make_rect \<lparr>im_width = 2000, im_height = 1500\<rparr> ''red'' 0 0 10 10),
                FancyBboxPatch (make_txt_bg ''red'' ''1#7'' 0 0)],
             ax_texts := [make_text ''1#7'' 0 0]\<rparr>)"
  by (simp add: paint_ann_def make_label_hash_1 box_color_def dict_get_default_def
        dict_get_def base_axes_def)

text \<open>
  Claim C9 says that the text of the label is the category name, \<^verbatim>\<open>#\<close> and the annotation
  id, the separator being left out when a part is empty. The script removes the separator
  with \<^verbatim>\<open>strip("#")\<close>, which removes every \<^verbatim>\<open>#\<close> at either end of the whole text, so a
  \<^verbatim>\<open>#\<close> that belongs to the category name is removed with it: for the category name
  \<^verbatim>\<open>#1\<close> and the annotation id 7 the label is \<^verbatim>\<open>1#7\<close>, not \<^verbatim>\<open>#1#7\<close>, also as the
  text the Renderer draws, and for the category name \<^verbatim>\<open>C#\<close> and an annotation without
  id it is \<^verbatim>\<open>C\<close>, not \<^verbatim>\<open>C#\<close>.
\<close>

theorem make_label_strips_category_name:
  "make_label [(1, \<lparr>catg_id = 1, catg_name = Some ''#1''\<rparr>)]
     \<lparr>ann_id = Some 7, image_id = 1, category_id = Some 1, bbox = [0, 0, 10, 10]\<rparr> = ''1#7''
   \<and> make_label [(1, \<lparr>catg_id = 1, catg_name = Some ''C#''\<rparr>)]
     \<lparr>ann_id = None, image_id = 1, category_id = Some 1, bbox = [0, 0, 10, 10]\<rparr> = ''C''
   \<and> (case draw_image_with_bboxes
         \<lparr>folder_exists = True, folder_is_dir = True, listdir = [''coco.json'', ''a.png''],
         json_load = (\<lambda>p. Inl (OSError [])), joinpath = (\<lambda>d n. d @ ''/'' @ n),
         path_exists = (\<lambda>p. True),
         image_open = (\<lambda>p. Inr \<lparr>im_width = 2000, im_height = 1500\<rparr>),
         rc_colors = None, mkdir_error = (\<lambda>p. None), savefig_error = (\<lambda>p. None)\<rparr>
         [] ''data/a.png''
         [\<lparr>ann_id = Some 7, image_id = 1, category_id = Some 1, bbox = [0, 0, 10, 10]\<rparr>]
         [(1, \<lparr>catg_id = 1, catg_name = Some ''#1''\<rparr>)] [(1, ''red'')] 120 of
         Inl e \<Rightarrow> None
       | Inr (fig, plt') \<Rightarrow> map_option (\<lambda>f. map text_s (figure_texts f)) (dict_get plt' fig))
     = Some [''1#7'']"
proof -
  let ?w = "\<lparr>folder_exists = True, folder_is_dir = True, listdir = [''coco.json'', ''a.png''],
         json_load = (\<lambda>p. Inl (OSError [])), joinpath = (\<lambda>d n. d @ ''/'' @ n),
         path_exists = (\<lambda>p. True),
         image_open = (\<lambda>p. Inr \<lparr>im_width = 2000, im_height = 1500\<rparr>),
         rc_colors = None, mkdir_error = (\<lambda>p. None), savefig_error = (\<lambda>p. None)\<rparr>"
  have r: "render ?w ''data/a.png''
         [\<lparr>ann_id = Some 7, image_id = 1, category_id = Some 1, bbox = [0, 0, 10, 10]\<rparr>]
         [(1, \<lparr>catg_id = 1, catg_name = Some ''#1''\<rparr>)] [(1, ''red'')] 120
     = Inr \<lparr>fig_figsize = (50 / 3, 25 / 2), fig_dpi = 120,
            fig_axes = [((base_axes \<lparr>im_width = 2000, im_height = 1500\<rparr>)
            \<lparr>ax_patches :=
               [Rectangle (make_rect \<lparr>im_width = 2000, im_height = 1500\<rparr> ''red'' 0 0 10 10),
                FancyBboxPatch (make_txt_bg ''red'' ''1#7'' 0 0)],
             ax_texts := [make_text ''1#7'' 0 0]\<rparr>)],
            fig_suptitle = None\<rparr>"
    by (simp add: render_def paint_anns_hash_1 del: paint_anns.simps)
  have "(case draw_image_with_bboxes ?w [] ''data/a.png''
         [\<lparr>ann_id = Some 7, image_id = 1, category_id = Some 1, bbox = [0, 0, 10, 10]\<rparr>]
         [(1, \<lparr>catg_id = 1, catg_name = Some ''#1''\<rparr>)] [(1, ''red'')] 120 of
         Inl e \<Rightarrow> None
       | Inr (fig, plt') \<Rightarrow> map_option (\<lambda>f. map text_s (figure_texts f)) (dict_get plt' fig))
     = Some [''1#7'']"
    unfolding draw_image_with_bboxes_render r
    by (simp add: dict_get_def figure_texts_def make_text_def)
  with make_label_hash_1 make_label_c_sharp show ?thesis by blast
qed

end
